theory Spec2Isabelle
  imports Complex_Main "HOL-Library.AList" "HOL-Library.Log_Nat"
begin

section \<open>JavaScript numbers and strings\<close>

text \<open>
  A JavaScript number is a binary64 double: a finite value, given here by the rational
  it denotes, one of the two infinities, or NaN. Negative zero is not told apart from
  zero. The arithmetic operations compute the exact result and round it to the nearest
  double, a tie going to the even significand, and to an infinity past the largest
  double.
\<close>

datatype jsnum = Fin rat | PInf | NInf | NaN

text \<open>
  The integer part of the binary logarithm of a positive rational, and rounding of a
  non-negative rational to the nearest integer with ties to the even one.
\<close>

definition floorlog2 :: "rat \<Rightarrow> int" where
  "floorlog2 a = (if 1 \<le> a then bitlen \<lfloor>a\<rfloor> - 1 else - bitlen (\<lceil>1 / a\<rceil> - 1))"

definition round_even :: "rat \<Rightarrow> int" where
  "round_even x =
     (let f = \<lfloor>x\<rfloor>; d = x - of_int f
      in if d < 1 / 2 then f else if 1 / 2 < d then f + 1 else if even f then f else f + 1)"

text \<open>
  Rounding to binary64: the significand has 53 bits, so a value of binary exponent
  \<open>k\<close> is rounded to a multiple of \<open>2 ^ (k - 52)\<close>, the least step being
  \<open>2 ^ (- 1074)\<close>; a result of \<open>2 ^ 1024\<close> or more is an infinity.
\<close>

definition round_double :: "rat \<Rightarrow> jsnum" where
  "round_double q =
     (if q = 0 then Fin 0
      else
        let a = \<bar>q\<bar>;
            e = max (- 1074) (floorlog2 a - 52);
            r = of_int (round_even (a / 2 powi e)) * 2 powi e
        in if 2 powi 1024 \<le> r then (if q < 0 then NInf else PInf)
           else Fin (if q < 0 then - r else r))"

fun jneg :: "jsnum \<Rightarrow> jsnum" where
  "jneg (Fin a) = Fin (- a)"
| "jneg PInf = NInf"
| "jneg NInf = PInf"
| "jneg NaN = NaN"

fun jadd :: "jsnum \<Rightarrow> jsnum \<Rightarrow> jsnum" where
  "jadd (Fin a) (Fin b) = round_double (a + b)"
| "jadd NaN _ = NaN"
| "jadd _ NaN = NaN"
| "jadd PInf NInf = NaN"
| "jadd NInf PInf = NaN"
| "jadd PInf _ = PInf"
| "jadd NInf _ = NInf"
| "jadd _ PInf = PInf"
| "jadd _ NInf = NInf"

definition jsub :: "jsnum \<Rightarrow> jsnum \<Rightarrow> jsnum" where
  "jsub x y = jadd x (jneg y)"

text \<open>The sign of a number that is not NaN: \<open>-1\<close>, \<open>0\<close> or \<open>1\<close>.\<close>

fun jsgn :: "jsnum \<Rightarrow> int" where
  "jsgn (Fin a) = (if a < 0 then - 1 else if a = 0 then 0 else 1)"
| "jsgn PInf = 1"
| "jsgn NInf = - 1"
| "jsgn NaN = 0"

definition signed_inf :: "int \<Rightarrow> jsnum" where
  "signed_inf s = (if s = 0 then NaN else if s < 0 then NInf else PInf)"

fun jmul :: "jsnum \<Rightarrow> jsnum \<Rightarrow> jsnum" where
  "jmul (Fin a) (Fin b) = round_double (a * b)"
| "jmul NaN _ = NaN"
| "jmul _ NaN = NaN"
| "jmul x y = signed_inf (jsgn x * jsgn y)"

text \<open>Division: a finite non-zero number over zero is an infinity, zero over zero is NaN.\<close>

fun jdiv :: "jsnum \<Rightarrow> jsnum \<Rightarrow> jsnum" where
  "jdiv (Fin a) (Fin b) = (if b = 0 then signed_inf (jsgn (Fin a)) else round_double (a / b))"
| "jdiv NaN _ = NaN"
| "jdiv _ NaN = NaN"
| "jdiv (Fin a) _ = Fin 0"
| "jdiv x (Fin b) = signed_inf (jsgn x * (if b < 0 then - 1 else 1))"
| "jdiv _ _ = NaN"

text \<open>
  \<open>Math.floor\<close>, and \<open>Math.round\<close>, which rounds a tie towards \<open>+\<infinity>\<close>; both give
  the exact integer, which is a double when the argument is one.
\<close>

fun Math_floor :: "jsnum \<Rightarrow> jsnum" where
  "Math_floor (Fin a) = Fin (of_int \<lfloor>a\<rfloor>)"
| "Math_floor x = x"

fun Math_round :: "jsnum \<Rightarrow> jsnum" where
  "Math_round (Fin a) = Fin (of_int \<lfloor>a + 1 / 2\<rfloor>)"
| "Math_round x = x"

fun isNaN :: "jsnum \<Rightarrow> bool" where
  "isNaN NaN = True"
| "isNaN _ = False"

fun isInteger :: "jsnum \<Rightarrow> bool" where
  "isInteger (Fin a) = (of_int \<lfloor>a\<rfloor> = a)"
| "isInteger _ = False"

text \<open>The number that the literal \<open>0.88\<close> denotes.\<close>

definition lit_0_88 :: jsnum where
  "lit_0_88 = round_double (88 / 100)"

text \<open>
  A string is a list of code units, each below 256. Of these the white space and line
  terminators, which \<open>trim\<close> and \<open>parseInt\<close> strip, are the tab, line feed, vertical tab,
  form feed, carriage return, space and no-break space.
\<close>

definition isWhiteSpace :: "char \<Rightarrow> bool" where
  "isWhiteSpace c =
     (c \<in> set [CHR 0x09, CHR 0x0A, CHR 0x0B, CHR 0x0C, CHR 0x0D, CHR 0x20, CHR 0xA0])"

definition isDigit :: "char \<Rightarrow> bool" where
  "isDigit c = (48 \<le> (of_char c :: nat) \<and> (of_char c :: nat) \<le> 57)"

definition digitVal :: "char \<Rightarrow> int" where
  "digitVal c = int (of_char c) - 48"

definition decimal :: "string \<Rightarrow> int" where
  "decimal ds = foldl (\<lambda>a c. 10 * a + digitVal c) 0 ds"

text \<open>
  \<open>parseInt(s, 10)\<close>: leading white space is dropped, one sign is read, then the
  longest run of decimal digits; with no digit there the result is NaN, else the integer
  the digits spell, as a double.
\<close>

definition parseInt :: "string \<Rightarrow> jsnum" where
  "parseInt s =
     (let t = dropWhile isWhiteSpace s;
          neg = (t \<noteq> [] \<and> hd t = CHR ''-'');
          u = (if t \<noteq> [] \<and> (hd t = CHR ''-'' \<or> hd t = CHR ''+'') then tl t else t);
          ds = takeWhile isDigit u
      in if ds = [] then NaN
         else round_double (of_int (if neg then - decimal ds else decimal ds)))"

text \<open>\<open>s.replace(/,/g, '')\<close> and \<open>s.trim()\<close>.\<close>

definition replace_commas :: "string \<Rightarrow> string" where
  "replace_commas s = filter (\<lambda>c. c \<noteq> CHR '','') s"

definition trim :: "string \<Rightarrow> string" where
  "trim s = rev (dropWhile isWhiteSpace (rev (dropWhile isWhiteSpace s)))"

section \<open>The price store\<close>

text \<open>
  A snapshot entry as the market API delivers it: \<open>price.minimum\<close> is a number or a
  string, \<open>tier\<close> is a number or \<open>null\<close>.
\<close>

datatype price_minimum = PNum int | PStr string

record item =
  item_id :: int
  item_hashed_id :: string
  item_price_minimum :: price_minimum
  item_name :: string
  item_tier :: "int option"

text \<open>The record written to the object store \<open>items\<close> (key path \<open>id\<close>).\<close>

record itemData =
  d_id :: int
  d_hashed_id :: string
  minimumPrice :: jsnum
  d_name :: string
  d_tier :: "int option"

text \<open>
  The object store holds one record per key; \<open>put\<close> replaces the record of an existing
  key. The index \<open>name\<close> is not unique: \<open>get\<close> on it returns the matching record of
  the lowest key.
\<close>

type_synonym objectStore = "(int \<times> itemData) list"

definition put :: "objectStore \<Rightarrow> itemData \<Rightarrow> objectStore" where
  "put os d = AList.update (d_id d) d os"

definition index_get :: "objectStore \<Rightarrow> string \<Rightarrow> itemData option" where
  "index_get os n =
     (case filter (\<lambda>r. d_name r = n) (map snd os) of
        [] \<Rightarrow> None
      | r # rs \<Rightarrow> Some (fold (\<lambda>a b. if d_id a < d_id b then a else b) rs r))"

definition skipped :: "item \<Rightarrow> bool" where
  "skipped it = (case item_tier it of None \<Rightarrow> False | Some t \<Rightarrow> t > 1)"

definition make_itemData :: "item \<Rightarrow> itemData" where
  "make_itemData it =
     \<lparr> d_id = item_id it,
       d_hashed_id = item_hashed_id it,
       minimumPrice = (case item_price_minimum it of
                         PStr s \<Rightarrow> parseInt (replace_commas s)
                       | PNum n \<Rightarrow> Fin (of_int n)),
       d_name = item_name it,
       d_tier = item_tier it \<rparr>"

text \<open>The body of \<open>data.forEach\<close>, and the loop over one batch in its transaction.\<close>

definition store_item :: "objectStore \<Rightarrow> item \<Rightarrow> objectStore" where
  "store_item os it = (if skipped it then os else put os (make_itemData it))"

definition store_batch :: "objectStore \<Rightarrow> item list \<Rightarrow> objectStore" where
  "store_batch os data = foldl store_item os data"

text \<open>
  The script's state: \<open>db\<close> is \<open>null\<close> until the database has opened, then it is the
  handle of the database, modelled by the contents of its object store; \<open>stalledXHR\<close> is
  the array of batches that arrived before. \<open>push\<close> appends at the end of the array and
  \<open>pop\<close> takes from the end. A transaction's writes are applied when the transaction is
  created: transactions on one store run in the order of their creation.
\<close>

record state =
  db :: "objectStore option"
  stalledXHR :: "item list list"

function storeItemsIndexedDB :: "state \<Rightarrow> item list \<Rightarrow> state" where
  "storeItemsIndexedDB st data =
     (if db st = None then st\<lparr>stalledXHR := stalledXHR st @ [data]\<rparr>
      else
        let st1 = (if stalledXHR st \<noteq> []
                   then storeItemsIndexedDB (st\<lparr>stalledXHR := butlast (stalledXHR st)\<rparr>)
                          (last (stalledXHR st))
                   else st)
        in st1\<lparr>db := map_option (\<lambda>os. store_batch os data) (db st1)\<rparr>)"
  by pat_completeness auto
termination
  by (relation "measure (\<lambda>(st, data). length (stalledXHR st))") auto

declare storeItemsIndexedDB.simps [simp del]

text \<open>
  The loop of \<open>request.onsuccess\<close>. It does not return when \<open>db\<close> is \<open>null\<close> (every
  popped batch is pushed back), so it is a partial function.
\<close>

partial_function (option) drain :: "state \<Rightarrow> state option" where
  "drain st =
     (if stalledXHR st \<noteq> []
      then drain (storeItemsIndexedDB (st\<lparr>stalledXHR := butlast (stalledXHR st)\<rparr>)
                    (last (stalledXHR st)))
      else Some st)"

definition onsuccess :: "state \<Rightarrow> objectStore \<Rightarrow> state option" where
  "onsuccess st result = drain (st\<lparr>db := Some result\<rparr>)"


section \<open>Resolving a name to a price\<close>

text \<open>
  An entry of the static table of vendor items. Of its fields the script reads \<open>id\<close>,
  \<open>name\<close> and \<open>price\<close>; the others (image, description, type, currency, sale price,
  final price, expiry) are left out.
\<close>

record vendorItem =
  v_id :: int
  v_name :: string
  v_price :: int

definition VENDOR_ITEMS :: "vendorItem list" where
  "VENDOR_ITEMS =
    [\<lparr>v_id = 152, v_name = ''Toxilord'', v_price = 500\<rparr>,
     \<lparr>v_id = 84, v_name = ''Gleamara'', v_price = 400\<rparr>,
     \<lparr>v_id = 82, v_name = ''Nightreaper'', v_price = 500\<rparr>,
     \<lparr>v_id = 72, v_name = ''Oilegeist'', v_price = 410\<rparr>,
     \<lparr>v_id = 147, v_name = ''Emberjack'', v_price = 500\<rparr>,
     \<lparr>v_id = 148, v_name = ''El Zombrero'', v_price = 500\<rparr>,
     \<lparr>v_id = 150, v_name = ''La Marioneta'', v_price = 500\<rparr>,
     \<lparr>v_id = 151, v_name = ''Voidmaw'', v_price = 500\<rparr>,
     \<lparr>v_id = 7, v_name = ''Freya'', v_price = 375\<rparr>,
     \<lparr>v_id = 57, v_name = ''Whispers of the Waves'', v_price = 150\<rparr>,
     \<lparr>v_id = 58, v_name = ''Natural Disaster'', v_price = 250\<rparr>,
     \<lparr>v_id = 59, v_name = ''Serenity'', v_price = 200\<rparr>,
     \<lparr>v_id = 74, v_name = ''Ankhotep'', v_price = 175\<rparr>,
     \<lparr>v_id = 56, v_name = ''Veils of the Valley'', v_price = 200\<rparr>,
     \<lparr>v_id = 96, v_name = ''Winged Amethyst'', v_price = 150\<rparr>,
     \<lparr>v_id = 97, v_name = ''Verdant Knight'', v_price = 150\<rparr>,
     \<lparr>v_id = 98, v_name = ''Thicket Skull'', v_price = 150\<rparr>,
     \<lparr>v_id = 99, v_name = ''Stonehelm'', v_price = 180\<rparr>,
     \<lparr>v_id = 100, v_name = ''Spikeguard Red'', v_price = 150\<rparr>,
     \<lparr>v_id = 102, v_name = ''Scholars Doom'', v_price = 150\<rparr>,
     \<lparr>v_id = 103, v_name = ''Regal Timber'', v_price = 150\<rparr>,
     \<lparr>v_id = 104, v_name = ''Prideguard'', v_price = 150\<rparr>,
     \<lparr>v_id = 106, v_name = ''Lion Monolith'', v_price = 150\<rparr>,
     \<lparr>v_id = 108, v_name = ''Harpoon Anchor'', v_price = 150\<rparr>,
     \<lparr>v_id = 109, v_name = ''Green Bone'', v_price = 120\<rparr>,
     \<lparr>v_id = 110, v_name = ''Granite Visage Badge'', v_price = 150\<rparr>,
     \<lparr>v_id = 111, v_name = ''Forest Skull'', v_price = 150\<rparr>,
     \<lparr>v_id = 112, v_name = ''Dragonfire Aegis'', v_price = 150\<rparr>,
     \<lparr>v_id = 115, v_name = ''Defenders Sigil'', v_price = 150\<rparr>,
     \<lparr>v_id = 117, v_name = ''Demon Skull'', v_price = 150\<rparr>,
     \<lparr>v_id = 118, v_name = ''Crimson Guard'', v_price = 130\<rparr>,
     \<lparr>v_id = 119, v_name = ''Cobalt Bastion'', v_price = 130\<rparr>,
     \<lparr>v_id = 120, v_name = ''Azure Sigil'', v_price = 130\<rparr>,
     \<lparr>v_id = 121, v_name = ''Azure Orb'', v_price = 130\<rparr>,
     \<lparr>v_id = 122, v_name = ''Azure Blade'', v_price = 150\<rparr>,
     \<lparr>v_id = 127, v_name = ''Ella'', v_price = 230\<rparr>,
     \<lparr>v_id = 146, v_name = ''Aure'', v_price = 500\<rparr>,
     \<lparr>v_id = 18, v_name = ''Orcenzum'', v_price = 420\<rparr>,
     \<lparr>v_id = 42, v_name = ''Thorgarr'', v_price = 425\<rparr>,
     \<lparr>v_id = 41, v_name = ''Fendral'', v_price = 225\<rparr>,
     \<lparr>v_id = 40, v_name = ''Celestria'', v_price = 310\<rparr>,
     \<lparr>v_id = 55, v_name = ''Peaceful Night'', v_price = 150\<rparr>,
     \<lparr>v_id = 28, v_name = ''Additional Bank Slot'', v_price = 80\<rparr>,
     \<lparr>v_id = 27, v_name = ''Additional Pet Slot'', v_price = 125\<rparr>,
     \<lparr>v_id = 26, v_name = ''Additional Inventory Slot'', v_price = 125\<rparr>,
     \<lparr>v_id = 25, v_name = ''Character Slot'', v_price = 500\<rparr>,
     \<lparr>v_id = 20, v_name = ''Shiera'', v_price = 325\<rparr>,
     \<lparr>v_id = 19, v_name = ''Roclus'', v_price = 150\<rparr>,
     \<lparr>v_id = 39, v_name = ''Bronn'', v_price = 270\<rparr>,
     \<lparr>v_id = 17, v_name = ''Mircus'', v_price = 370\<rparr>,
     \<lparr>v_id = 16, v_name = ''Melriel'', v_price = 325\<rparr>,
     \<lparr>v_id = 15, v_name = ''Leilatha'', v_price = 325\<rparr>,
     \<lparr>v_id = 14, v_name = ''Katiyara'', v_price = 350\<rparr>,
     \<lparr>v_id = 13, v_name = ''Gerrin'', v_price = 415\<rparr>,
     \<lparr>v_id = 12, v_name = ''Feron'', v_price = 360\<rparr>,
     \<lparr>v_id = 11, v_name = ''Elfirma'', v_price = 360\<rparr>,
     \<lparr>v_id = 8, v_name = ''Lucian'', v_price = 410\<rparr>,
     \<lparr>v_id = 1, v_name = ''Isolde'', v_price = 325\<rparr>,
     \<lparr>v_id = 45, v_name = ''Alpine'', v_price = 100\<rparr>,
     \<lparr>v_id = 54, v_name = ''Golden Silence'', v_price = 150\<rparr>,
     \<lparr>v_id = 52, v_name = ''Moonlit Brilliance'', v_price = 200\<rparr>,
     \<lparr>v_id = 51, v_name = ''Magma's Elegy'', v_price = 250\<rparr>,
     \<lparr>v_id = 50, v_name = ''Golden Farewell'', v_price = 100\<rparr>,
     \<lparr>v_id = 49, v_name = ''Celestial Horizon'', v_price = 100\<rparr>,
     \<lparr>v_id = 48, v_name = ''Veiled Voyage'', v_price = 100\<rparr>,
     \<lparr>v_id = 44, v_name = ''Frozen Mirror'', v_price = 100\<rparr>,
     \<lparr>v_id = 46, v_name = ''Luminous Nocture'', v_price = 100\<rparr>,
     \<lparr>v_id = 47, v_name = ''Seafarer's Respite'', v_price = 100\<rparr>,
     \<lparr>v_id = 32, v_name = ''Cheap Bait'', v_price = 2\<rparr>,
     \<lparr>v_id = 33, v_name = ''Tarnished Bait'', v_price = 4\<rparr>,
     \<lparr>v_id = 34, v_name = ''Gleaming Bait'', v_price = 7\<rparr>,
     \<lparr>v_id = 35, v_name = ''Elemental Bait'', v_price = 12\<rparr>,
     \<lparr>v_id = 36, v_name = ''Eldritch Bait'', v_price = 16\<rparr>,
     \<lparr>v_id = 144, v_name = ''Metamorphite'', v_price = 500\<rparr>,
     \<lparr>v_id = 145, v_name = ''Namestone'', v_price = 500\<rparr>,
     \<lparr>v_id = 37, v_name = ''Arcane Bait'', v_price = 25\<rparr>,
     \<lparr>v_id = 60, v_name = ''Simple Fishing Rod'', v_price = 10\<rparr>,
     \<lparr>v_id = 61, v_name = ''Simple Pickaxe'', v_price = 10\<rparr>,
     \<lparr>v_id = 62, v_name = ''Simple Felling Axe'', v_price = 10\<rparr>,
     \<lparr>v_id = 63, v_name = ''Cheap Vial'', v_price = 5\<rparr>,
     \<lparr>v_id = 175, v_name = ''Cheap Crystal'', v_price = 5\<rparr>,
     \<lparr>v_id = 64, v_name = ''Tarnished Vial'', v_price = 10\<rparr>,
     \<lparr>v_id = 176, v_name = ''Tarnished Crystal'', v_price = 10\<rparr>,
     \<lparr>v_id = 65, v_name = ''Gleaming Vial'', v_price = 50\<rparr>,
     \<lparr>v_id = 177, v_name = ''Gleaming Crystal'', v_price = 50\<rparr>,
     \<lparr>v_id = 66, v_name = ''Elemental Vial'', v_price = 200\<rparr>,
     \<lparr>v_id = 178, v_name = ''Elemental Crystal'', v_price = 200\<rparr>,
     \<lparr>v_id = 67, v_name = ''Eldritch Vial'', v_price = 500\<rparr>,
     \<lparr>v_id = 179, v_name = ''Eldritch Crystal'', v_price = 500\<rparr>,
     \<lparr>v_id = 68, v_name = ''Arcane Vial'', v_price = 2500\<rparr>,
     \<lparr>v_id = 180, v_name = ''Arcane Crystal'', v_price = 2500\<rparr>,
     \<lparr>v_id = 69, v_name = ''Empty Crystal'', v_price = 50\<rparr>]"

definition findVendorItemByName :: "string \<Rightarrow> vendorItem option" where
  "findVendorItemByName n = find (\<lambda>it. v_name it = n) VENDOR_ITEMS"

text \<open>
  What a lookup resolves to: for a vendor item the object built from its name, id and
  price, for a stored item the record of the object store.
\<close>

datatype resolved = Vendor string int int | Stored itemData

fun resolved_minimumPrice :: "resolved \<Rightarrow> jsnum" where
  "resolved_minimumPrice (Vendor n i p) = Fin (of_int p)"
| "resolved_minimumPrice (Stored d) = minimumPrice d"

datatype error = NotConnected | NotFound string

text \<open>
  \<open>getItemByNameIndexedDB\<close> returns the vendor item at once when there is one; otherwise
  its promise rejects when the database is not connected or the index has no record of
  the name, and resolves with the record found. The store is read in the state the call
  is made in. A value it resolves with is always an object.
\<close>

definition getItemByNameIndexedDB :: "state \<Rightarrow> string \<Rightarrow> error + resolved" where
  "getItemByNameIndexedDB st n =
     (case findVendorItemByName n of
        Some vendorItem \<Rightarrow> Inr (Vendor (v_name vendorItem) (v_id vendorItem) (v_price vendorItem))
      | None \<Rightarrow>
         (case db st of
            None \<Rightarrow> Inl NotConnected
          | Some os \<Rightarrow>
             (case index_get os n of
                Some it \<Rightarrow> Inr (Stored it)
              | None \<Rightarrow> Inl (NotFound n))))"

section \<open>Profit per hour of the recipes of a page\<close>

text \<open>
  A requirement span of the page with the text of its quantity and item name children,
  where it has them, and an entry of \<open>recipe.requirements\<close>.
\<close>

record requirementSpan =
  quantitySpan :: "string option"
  itemNameSpan :: "string option"

record requirement =
  quantity :: jsnum
  req_name :: string
  totalPrice :: jsnum

text \<open>
  The callback mapped over the requirement spans: the list of entries it pushes, or the
  error its \<open>await\<close> throws. A rejected lookup throws there, so the branch for a
  missing \<open>itemData\<close> is not reached: a lookup that resolves yields an object.
\<close>

definition requirement_of :: "state \<Rightarrow> requirementSpan \<Rightarrow> error + requirement list" where
  "requirement_of st sp =
     (case (quantitySpan sp, itemNameSpan sp) of
        (Some qt, Some nt) \<Rightarrow>
          (let q = parseInt (trim qt); itemName = trim nt
           in if \<not> isNaN q \<and> itemName \<noteq> []
              then (case getItemByNameIndexedDB st itemName of
                      Inl e \<Rightarrow> Inl e
                    | Inr itemData \<Rightarrow>
                        Inr [\<lparr>quantity = q, req_name = itemName,
                              totalPrice = jmul (resolved_minimumPrice itemData) q\<rparr>])
              else Inr [])
      | _ \<Rightarrow> Inr [])"

text \<open>
  \<open>await Promise.all\<close> over the callbacks: all the pushed entries, or an error when a
  callback throws (of several, the first in the order of the spans). The entries are kept
  in the order of the spans; only their sum is used.
\<close>

fun requirements_all :: "state \<Rightarrow> requirementSpan list \<Rightarrow> error + requirement list" where
  "requirements_all st [] = Inr []"
| "requirements_all st (sp # sps) =
     (case requirement_of st sp of
        Inl e \<Rightarrow> Inl e
      | Inr r \<Rightarrow>
         (case requirements_all st sps of
            Inl e \<Rightarrow> Inl e
          | Inr rs \<Rightarrow> Inr (r @ rs)))"

text \<open>
  A recipe button of the page: the text of its name span, the number \<open>parseFloat\<close>
  reads from its craft time span, and the requirement spans of its container, each
  where the element is there.
\<close>

record button =
  nameSpan :: "string option"
  craftTimeSpan :: "jsnum option"
  requirementsContainer :: "requirementSpan list option"

text \<open>The recipe with the figures computed for it; \<open>profitPerHour\<close> is what is shown.\<close>

record profit =
  recipeName :: string
  recipeSellPrice :: jsnum
  recipeSellPriceWithTax :: jsnum
  craftTimeSeconds :: jsnum
  requirements :: "requirement list"
  totalCost :: jsnum
  totalProfit :: jsnum
  numPerHour :: jsnum
  profitPerHour :: jsnum

definition sell_prices :: "state \<Rightarrow> string \<Rightarrow> error + jsnum \<times> jsnum" where
  "sell_prices st n =
     (if n = ''Cooked Cod'' then Inr (Fin 2, Fin 2)
      else (case getItemByNameIndexedDB st n of
              Inl e \<Rightarrow> Inl e
            | Inr recipeItem \<Rightarrow>
                Inr (resolved_minimumPrice recipeItem,
                     Math_floor (jmul (resolved_minimumPrice recipeItem) lit_0_88))))"

definition sum_totalPrice :: "requirement list \<Rightarrow> jsnum" where
  "sum_totalPrice reqs = foldl (\<lambda>c req. jadd c (totalPrice req)) (Fin 0) reqs"

text \<open>
  One turn of the loop over the buttons: \<open>None\<close> when the button is passed over for a
  missing element, an error when a lookup throws, else the figures.
\<close>

definition craft_profit :: "state \<Rightarrow> button \<Rightarrow> (error + profit) option" where
  "craft_profit st b =
     (case (nameSpan b, craftTimeSpan b, requirementsContainer b) of
        (Some n, Some t, Some spans) \<Rightarrow>
          Some (case sell_prices st (trim n) of
                  Inl e \<Rightarrow> Inl e
                | Inr (sp, spt) \<Rightarrow>
                   (case requirements_all st spans of
                      Inl e \<Rightarrow> Inl e
                    | Inr reqs \<Rightarrow>
                       (let tc = sum_totalPrice reqs;
                            tp = jsub spt tc;
                            nph = jdiv (Fin 3600) t;
                            pph = Math_round (jmul tp nph)
                        in Inr \<lparr>recipeName = trim n, recipeSellPrice = sp,
                                 recipeSellPriceWithTax = spt, craftTimeSeconds = t,
                                 requirements = reqs, totalCost = tc, totalProfit = tp,
                                 numPerHour = nph, profitPerHour = pph\<rparr>)))
      | _ \<Rightarrow> None)"

text \<open>
  The loop of \<open>renderCraftProfit\<close>: the figures appended to the page, in order, and the
  error that ended the loop, if one did. Nothing catches a thrown error, so the buttons
  after it are not reached.
\<close>

fun render_loop :: "state \<Rightarrow> button list \<Rightarrow> profit list \<times> error option" where
  "render_loop st [] = ([], None)"
| "render_loop st (b # bs) =
     (case craft_profit st b of
        None \<Rightarrow> render_loop st bs
      | Some (Inl e) \<Rightarrow> ([], Some e)
      | Some (Inr p) \<Rightarrow> (case render_loop st bs of (ps, e) \<Rightarrow> (p # ps, e)))"

definition renderCraftProfit :: "state \<Rightarrow> button list option \<Rightarrow> profit list \<times> error option" where
  "renderCraftProfit st knownRecipesList =
     (case knownRecipesList of None \<Rightarrow> ([], None) | Some recipeButtons \<Rightarrow> render_loop st recipeButtons)"

section \<open>The properties as the specification words them\<close>

text \<open>A string of decimal digits grouped by commas, such as \<open>1,234\<close>.\<close>

definition comma_grouped :: "string \<Rightarrow> bool" where
  "comma_grouped s = (s \<noteq> [] \<and> isDigit (hd s) \<and> list_all (\<lambda>c. isDigit c \<or> c = CHR '','') s)"








section \<open>The store and the queue\<close>

lemma store_batch_snoc: "store_batch os (xs @ [x]) = store_item (store_batch os xs) x"
  by (simp add: store_batch_def)

lemma store_batch_append: "store_batch os (xs @ ys) = store_batch (store_batch os xs) ys"
  by (simp add: store_batch_def)

lemma store_batch_Cons: "store_batch os (x # xs) = store_batch (store_item os x) xs"
  by (simp add: store_batch_def)

text \<open>
  With the database connected, a call stores the whole backlog, oldest batch first, and
  then its own batch: each call pops one batch and recurses before it writes.
\<close>

lemma storeItems_ready:
  "db st = Some os \<Longrightarrow>
   storeItemsIndexedDB st data =
     \<lparr>db = Some (store_batch (foldl store_batch os (stalledXHR st)) data), stalledXHR = []\<rparr>"
proof (induction "stalledXHR st" arbitrary: st data rule: rev_induct)
  case Nil
  then show ?case
    by (simp add: storeItemsIndexedDB.simps [of st data])
next
  case (snoc x xs)
  let ?st' = "st\<lparr>stalledXHR := butlast (stalledXHR st)\<rparr>"
  have eq: "stalledXHR st = xs @ [x]" using snoc.hyps(2) by simp
  have "xs = stalledXHR ?st'" using eq by simp
  moreover have "db ?st' = Some os" using snoc.prems by simp
  ultimately have inner: "storeItemsIndexedDB ?st' x =
     \<lparr>db = Some (store_batch (foldl store_batch os (stalledXHR ?st')) x), stalledXHR = []\<rparr>"
    by (rule snoc.hyps(1))
  show ?case
    using snoc.prems eq inner
    by (simp add: storeItemsIndexedDB.simps [of st data])
qed

lemma storeItems_null:
  "db st = None \<Longrightarrow> storeItemsIndexedDB st data = st\<lparr>stalledXHR := stalledXHR st @ [data]\<rparr>"
  by (simp add: storeItemsIndexedDB.simps [of st data])

text \<open>The loop of \<open>onsuccess\<close> returns, with the backlog stored in the order it arrived.\<close>

lemma drain_ready:
  assumes "db st = Some os"
  shows "drain st = Some \<lparr>db = Some (foldl store_batch os (stalledXHR st)), stalledXHR = []\<rparr>"
proof (cases "stalledXHR st = []")
  case True
  then show ?thesis using assms by (simp add: drain.simps [of st])
next
  case False
  let ?st' = "st\<lparr>stalledXHR := butlast (stalledXHR st)\<rparr>"
  let ?done = "\<lparr>db = Some (foldl store_batch os (stalledXHR st)), stalledXHR = []\<rparr>"
  have d: "db ?st' = Some os" using assms by simp
  have whole: "butlast (stalledXHR st) @ [last (stalledXHR st)] = stalledXHR st"
    using False by simp
  have "storeItemsIndexedDB ?st' (last (stalledXHR st)) =
      \<lparr>db = Some (foldl store_batch os (butlast (stalledXHR st) @ [last (stalledXHR st)])),
       stalledXHR = []\<rparr>"
    using storeItems_ready [OF d, of "last (stalledXHR st)"] by simp
  then have s: "storeItemsIndexedDB ?st' (last (stalledXHR st)) = ?done"
    by (simp only: whole)
  show ?thesis
    using False by (simp add: drain.simps [of st] s drain.simps [of ?done])
qed

lemma map_of_store_item:
  "map_of (store_item os e) i =
     (if item_id e = i \<and> \<not> skipped e then Some (make_itemData e) else map_of os i)"
  by (simp add: store_item_def put_def update_conv' make_itemData_def)

lemma map_of_store_batch:
  "map_of (store_batch os data) i =
     (if \<exists>e \<in> set data. item_id e = i \<and> \<not> skipped e then map_of (store_batch [] data) i
      else map_of os i)"
proof (induction data rule: rev_induct)
  case Nil
  then show ?case by (simp add: store_batch_def)
next
  case (snoc x xs)
  show ?case
    using snoc.IH by (auto simp: store_batch_snoc map_of_store_item)
qed

lemma enqueue_all:
  "db st = None \<Longrightarrow> foldl storeItemsIndexedDB st Bs = st\<lparr>stalledXHR := stalledXHR st @ Bs\<rparr>"
proof (induction Bs arbitrary: st)
  case Nil
  then show ?case by simp
next
  case (Cons B Bs)
  have "db (st\<lparr>stalledXHR := stalledXHR st @ [B]\<rparr>) = None" using Cons.prems by simp
  then show ?case
    using Cons.prems Cons.IH [of "st\<lparr>stalledXHR := stalledXHR st @ [B]\<rparr>"]
    by (simp add: storeItems_null)
qed

text \<open>
  C1: batches handed over one after the other while the database is not connected are
  stored, once it connects, in the order they were handed over, and the loop returns
  with an empty backlog. For two batches \<open>B1\<close>, \<open>B2\<close> the store is the one of storing
  \<open>B1\<close> and then \<open>B2\<close> into the opened store, and for an id that \<open>B2\<close> writes, the
  record is the one \<open>B2\<close> alone leaves.
\<close>

theorem queued_batches_applied_in_order:
  "onsuccess (foldl storeItemsIndexedDB \<lparr>db = None, stalledXHR = []\<rparr> Bs) result
     = Some \<lparr>db = Some (foldl store_batch result Bs), stalledXHR = []\<rparr>
   \<and> onsuccess (storeItemsIndexedDB (storeItemsIndexedDB \<lparr>db = None, stalledXHR = []\<rparr> B1) B2) result
     = Some \<lparr>db = Some (store_batch (store_batch result B1) B2), stalledXHR = []\<rparr>
   \<and> ((\<exists>e \<in> set B2. item_id e = i \<and> \<not> skipped e) \<longrightarrow>
        map_of (store_batch (store_batch result B1) B2) i = map_of (store_batch [] B2) i)"
proof -
  have all: "onsuccess (foldl storeItemsIndexedDB \<lparr>db = None, stalledXHR = []\<rparr> Bs) result
     = Some \<lparr>db = Some (foldl store_batch result Bs), stalledXHR = []\<rparr>" for Bs
  proof -
    have "onsuccess (foldl storeItemsIndexedDB \<lparr>db = None, stalledXHR = []\<rparr> Bs) result
       = drain \<lparr>db = Some result, stalledXHR = Bs\<rparr>"
      by (simp add: onsuccess_def enqueue_all)
    also have "\<dots> = Some \<lparr>db = Some (foldl store_batch result Bs), stalledXHR = []\<rparr>"
      using drain_ready [of "\<lparr>db = Some result, stalledXHR = Bs\<rparr>" result] by simp
    finally show ?thesis .
  qed
  have two: "onsuccess (storeItemsIndexedDB (storeItemsIndexedDB \<lparr>db = None, stalledXHR = []\<rparr> B1) B2) result
     = Some \<lparr>db = Some (store_batch (store_batch result B1) B2), stalledXHR = []\<rparr>"
    using all [of "[B1, B2]"] by simp
  show ?thesis
    using all [of Bs] two map_of_store_batch [of "store_batch result B1" B2 i] by simp
qed

text \<open>
  C2: an entry whose tier is there and greater than 1 is passed over: storing it leaves
  the object store as it is, a batch stores what it stores without the entry, and an id
  that only such entries of a batch carry keeps the record it had, or none.
\<close>

theorem higher_tier_entry_skipped:
  assumes "item_tier e = Some t" and "t > 1"
  shows "store_item os e = os
       \<and> store_batch os (xs @ e # ys) = store_batch os (xs @ ys)
       \<and> ((\<forall>e' \<in> set data. item_id e' = item_id e \<longrightarrow> skipped e')
            \<longrightarrow> map_of (store_batch os data) (item_id e) = map_of os (item_id e))"
proof -
  have sk: "skipped e" using assms by (simp add: skipped_def)
  have 1: "store_item os e = os" for os using sk by (simp add: store_item_def)
  have 2: "store_batch os (xs @ e # ys) = store_batch os (xs @ ys)"
    by (simp add: store_batch_append store_batch_Cons 1)
  have 3: "(\<forall>e' \<in> set data. item_id e' = item_id e \<longrightarrow> skipped e')
           \<longrightarrow> map_of (store_batch os data) (item_id e) = map_of os (item_id e)"
    using map_of_store_batch [of os data "item_id e"] by auto
  show ?thesis using 1 2 3 by simp
qed

section \<open>Rounding to doubles\<close>

text \<open>The power of two that \<open>floorlog2\<close> names is not above its argument.\<close>

lemma floorlog2_le:
  assumes "0 < a"
  shows "2 powi (floorlog2 a) \<le> a"
proof (cases "1 \<le> a")
  case True
  then have pos: "0 < \<lfloor>a\<rfloor>" by simp
  have b1: "1 \<le> bitlen \<lfloor>a\<rfloor>" using pos by (simp add: bitlen_alt_def)
  have "(2::int) ^ nat (bitlen \<lfloor>a\<rfloor> - 1) \<le> \<lfloor>a\<rfloor>"
    using bitlen_bounds [OF pos] by simp
  then have "rat_of_int (2 ^ nat (bitlen \<lfloor>a\<rfloor> - 1)) \<le> of_int \<lfloor>a\<rfloor>"
    by (simp only: of_int_le_iff)
  also have "\<dots> \<le> a" by simp
  finally have "(2::rat) ^ nat (bitlen \<lfloor>a\<rfloor> - 1) \<le> a" by simp
  moreover have "(2::rat) powi (bitlen \<lfloor>a\<rfloor> - 1) = 2 ^ nat (bitlen \<lfloor>a\<rfloor> - 1)"
    using b1 by (simp add: power_int_nonneg_exp)
  ultimately show ?thesis using True by (simp add: floorlog2_def)
next
  case False
  let ?N = "\<lceil>1 / a\<rceil>"
  let ?b = "bitlen (?N - 1)"
  have "1 < 1 / a" using False assms by (simp add: field_simps)
  then have N: "1 < ?N" by (simp add: less_ceiling_iff)
  then have pos: "0 < ?N - 1" by simp
  have "?N - 1 < 2 ^ nat ?b" using bitlen_bounds [OF pos] by simp
  then have "?N \<le> 2 ^ nat ?b" by simp
  then have "1 / a \<le> rat_of_int (2 ^ nat ?b)" by (simp only: ceiling_le_iff)
  then have "1 / a \<le> 2 ^ nat ?b" by simp
  then have "1 \<le> a * 2 ^ nat ?b" using assms by (simp add: field_simps)
  then have "1 / 2 ^ nat ?b \<le> a" by (simp add: field_simps)
  moreover have "(2::rat) powi (- ?b) = 1 / 2 ^ nat ?b"
    using bitlen_nonneg [of "?N - 1"] by (simp add: power_int_minus_divide power_int_nonneg_exp)
  ultimately show ?thesis using False by (simp add: floorlog2_def)
qed

lemma round_even_of_int [simp]: "round_even (of_int k) = k"
  by (simp add: round_even_def)

lemma round_even_ge: "of_int A \<le> x \<Longrightarrow> A \<le> round_even x"
proof -
  assume "of_int A \<le> x"
  then have "A \<le> \<lfloor>x\<rfloor>" by (simp add: le_floor_iff)
  then show ?thesis by (auto simp: round_even_def Let_def)
qed

lemma round_even_le: "x \<le> of_int B \<Longrightarrow> round_even x \<le> B"
proof -
  assume xB: "x \<le> of_int B"
  have "\<lfloor>x\<rfloor> \<le> \<lfloor>rat_of_int B\<rfloor>" using xB by (rule floor_mono)
  then have fB: "\<lfloor>x\<rfloor> \<le> B" by simp
  show ?thesis
  proof (cases "\<lfloor>x\<rfloor> = B")
    case True
    then have "x = of_int B" using xB of_int_floor_le [of x] by linarith
    then show ?thesis by simp
  next
    case False
    then have "\<lfloor>x\<rfloor> + 1 \<le> B" using fB by simp
    then show ?thesis by (auto simp: round_even_def Let_def)
  qed
qed

text \<open>
  Rounding stays between two bounds that lie on a grid at least as coarse as the one the
  value is rounded on. It follows that an integer below \<open>2 ^ 53\<close> in magnitude is a
  double.
\<close>

lemma round_double_between:
  assumes q: "0 < q" and lt: "q < 2 powi (53 + g)" and g: "- 1074 \<le> g"
    and A: "rat_of_int i * 2 powi g \<le> q" and B: "q \<le> rat_of_int j * 2 powi g"
    and fin: "rat_of_int j * 2 powi g < 2 powi 1024"
  shows "\<exists>r. round_double q = Fin r \<and> rat_of_int i * 2 powi g \<le> r \<and> r \<le> rat_of_int j * 2 powi g"
proof -
  define e where "e = max (- 1074) (floorlog2 q - 52)"
  define m where "m = round_even (q / 2 powi e)"
  have "(2::rat) powi (floorlog2 q) \<le> q" using q by (rule floorlog2_le)
  then have "(2::rat) powi (floorlog2 q) < 2 powi (53 + g)" using lt by simp
  then have "floorlog2 q < 53 + g"
    using power_int_increasing [of "53 + g" "floorlog2 q" "2::rat"] by (cases "floorlog2 q < 53 + g") auto
  then have eg: "e \<le> g" using g by (simp add: e_def)
  define d where "d = nat (g - e)"
  have pg: "(2::rat) powi g = 2 powi e * 2 ^ d"
    using eg by (simp add: d_def power_int_add [symmetric] flip: power_int_of_nat)
  have pe: "0 < (2::rat) powi e" by simp
  have iA: "of_int (i * 2 ^ d) \<le> q / 2 powi e"
    using A pe by (simp add: pg field_simps)
  have jB: "q / 2 powi e \<le> of_int (j * 2 ^ d)"
    using B pe by (simp add: pg field_simps)
  have m1: "i * 2 ^ d \<le> m" unfolding m_def using iA by (rule round_even_ge)
  have m2: "m \<le> j * 2 ^ d" unfolding m_def using jB by (rule round_even_le)
  have r1: "rat_of_int i * 2 powi g \<le> of_int m * 2 powi e"
  proof -
    have "rat_of_int (i * 2 ^ d) \<le> of_int m" using m1 by (simp only: of_int_le_iff)
    then have "rat_of_int (i * 2 ^ d) * 2 powi e \<le> of_int m * 2 powi e"
      using pe by (simp only: mult_le_cancel_right_pos)
    then show ?thesis by (simp add: pg mult_ac)
  qed
  have r2: "of_int m * 2 powi e \<le> rat_of_int j * 2 powi g"
  proof -
    have "of_int m \<le> rat_of_int (j * 2 ^ d)" using m2 by (simp only: of_int_le_iff)
    then have "of_int m * 2 powi e \<le> rat_of_int (j * 2 ^ d) * 2 powi e"
      using pe by (simp only: mult_le_cancel_right_pos)
    then show ?thesis by (simp add: pg mult_ac)
  qed
  have nf: "\<not> 2 powi 1024 \<le> of_int m * (2::rat) powi e" using r2 fin by simp
  have "round_double q = Fin (of_int m * 2 powi e)"
    using q nf by (simp add: round_double_def Let_def e_def [symmetric] m_def [symmetric])
  then show ?thesis using r1 r2 by simp
qed

lemma round_double_minus: "round_double (- q) = (case round_double q of Fin r \<Rightarrow> Fin (- r) | PInf \<Rightarrow> NInf | NInf \<Rightarrow> PInf | NaN \<Rightarrow> NaN)"
  by (auto simp: round_double_def Let_def)

lemma round_double_int_pos:
  assumes "0 < n" and "n < 2 ^ 53"
  shows "round_double (of_int n) = Fin (of_int n)"
proof -
  have lt: "rat_of_int n < 2 powi (53 + 0)"
  proof -
    have "rat_of_int n < rat_of_int (2 ^ 53)" using assms(2) by (simp only: of_int_less_iff)
    then show ?thesis by simp
  qed
  have fin: "rat_of_int n * 2 powi 0 < 2 powi 1024"
  proof -
    have "rat_of_int n < 2 powi 53" using lt by simp
    also have "\<dots> \<le> 2 powi 1024" by (rule power_int_increasing) simp_all
    finally show ?thesis by simp
  qed
  obtain r where "round_double (of_int n) = Fin r" "rat_of_int n * 2 powi 0 \<le> r" "r \<le> rat_of_int n * 2 powi 0"
    using round_double_between [of "of_int n" 0 n n] assms(1) lt fin by auto
  then show ?thesis by simp
qed

lemma round_double_int:
  assumes "\<bar>n\<bar> < 2 ^ 53"
  shows "round_double (of_int n) = Fin (of_int n)"
proof -
  consider "n = 0" | "0 < n" | "n < 0" by linarith
  then show ?thesis
  proof cases
    case 1
    then show ?thesis by (simp add: round_double_def)
  next
    case 2
    then show ?thesis using assms by (intro round_double_int_pos) simp_all
  next
    case 3
    then have "round_double (of_int (- n)) = Fin (of_int (- n))"
      using assms by (intro round_double_int_pos) simp_all
    then show ?thesis using round_double_minus [of "of_int (- n)"] by simp
  qed
qed

lemma round_double_numeral:
  "(numeral k :: int) < 2 ^ 53 \<Longrightarrow> round_double (numeral k) = Fin (numeral k)"
  using round_double_int [of "numeral k"] by simp


lemma round_double_0 [simp]: "round_double 0 = Fin 0"
  by (simp add: round_double_def)

lemma round_double_1 [simp]: "round_double 1 = Fin 1"
  using round_double_int [of 1] by simp

lemma lit_0_88_value: "lit_0_88 = Fin (7926335344172073 / 2 ^ 53)"
  unfolding lit_0_88_def by code_simp

lemma floorlog2_gt:
  assumes "1 \<le> a"
  shows "a < 2 powi (floorlog2 a + 1)"
proof -
  have pos: "0 < \<lfloor>a\<rfloor>" using assms by simp
  have "\<lfloor>a\<rfloor> < 2 ^ nat (bitlen \<lfloor>a\<rfloor>)" using bitlen_bounds [OF pos] by simp
  then have "\<lfloor>a\<rfloor> + 1 \<le> 2 ^ nat (bitlen \<lfloor>a\<rfloor>)" by simp
  then have "rat_of_int (\<lfloor>a\<rfloor> + 1) \<le> rat_of_int (2 ^ nat (bitlen \<lfloor>a\<rfloor>))"
    by (simp only: of_int_le_iff)
  moreover have "a < rat_of_int (\<lfloor>a\<rfloor> + 1)" by linarith
  ultimately have "a < 2 ^ nat (bitlen \<lfloor>a\<rfloor>)" by simp
  moreover have "(2::rat) powi (bitlen \<lfloor>a\<rfloor>) = 2 ^ nat (bitlen \<lfloor>a\<rfloor>)"
    using bitlen_nonneg [of "\<lfloor>a\<rfloor>"] by (simp add: power_int_nonneg_exp)
  ultimately show ?thesis using assms by (simp add: floorlog2_def)
qed

lemma floorlog2_ge:
  assumes "2 powi k \<le> a" and "1 \<le> a"
  shows "k \<le> floorlog2 a"
proof (rule ccontr)
  assume "\<not> k \<le> floorlog2 a"
  then have "floorlog2 a + 1 \<le> k" by simp
  then have "(2::rat) powi (floorlog2 a + 1) \<le> 2 powi k"
    by (intro power_int_increasing) simp_all
  then show False using floorlog2_gt [OF assms(2)] assms(1) by simp
qed

text \<open>From \<open>2 ^ 53\<close> on every double is an integer, and from \<open>2 ^ 1024\<close> on there is none.\<close>

lemma round_double_large_integer:
  assumes "2 ^ 53 \<le> q" and "round_double q = Fin r"
  shows "isInteger (Fin r)"
proof -
  have q1: "1 \<le> q" using assms(1) by simp
  have "(2::rat) powi 53 \<le> q" using assms(1) by simp
  then have fl: "53 \<le> floorlog2 q" using q1 by (rule floorlog2_ge)
  define e where "e = max (- 1074) (floorlog2 q - 52)"
  define m where "m = round_even (q / 2 powi e)"
  have aq: "\<bar>q\<bar> = q" using q1 by simp
  have e1: "0 \<le> e" using fl q1 by (simp add: e_def)
  have pe: "(2::rat) powi e = of_int (2 ^ nat e)" using e1 by (simp add: power_int_nonneg_exp)
  have "round_double q = (if 2 powi 1024 \<le> of_int m * (2::rat) powi e then PInf
                          else Fin (of_int m * 2 powi e))"
    using q1 unfolding round_double_def aq Let_def e_def m_def by simp
  then have "r = of_int m * 2 powi e"
    using assms(2) by (simp split: if_splits)
  then have "r = of_int (m * 2 ^ nat e)" by (simp add: pe)
  then show ?thesis by simp
qed

lemma round_double_overflow:
  assumes "2 ^ 1024 \<le> q"
  shows "round_double q = PInf"
proof -
  have q1: "1 \<le> q"
  proof -
    have "(1::rat) \<le> 2 ^ 1024" by simp
    then show ?thesis using assms by (rule order_trans)
  qed
  have "(2::rat) powi 1024 \<le> q" using assms by simp
  then have fl: "1024 \<le> floorlog2 q" using q1 by (rule floorlog2_ge)
  define e where "e = max (- 1074) (floorlog2 q - 52)"
  define m where "m = round_even (q / 2 powi e)"
  have aq: "\<bar>q\<bar> = q" using q1 by simp
  have ee: "e = floorlog2 q - 52" using fl q1 by (simp add: e_def)
  have split: "rat_of_int (2 ^ 52) * 2 powi e = 2 powi (floorlog2 q)"
  proof -
    have "(2::rat) powi (52 + e) = 2 powi 52 * 2 powi e" by (rule power_int_add) simp
    moreover have "52 + e = floorlog2 q" by (simp add: ee)
    ultimately show ?thesis by simp
  qed
  have pe: "0 < (2::rat) powi e" by simp
  have "(2::rat) powi (floorlog2 q) \<le> q" using q1 by (intro floorlog2_le) simp
  then have "rat_of_int (2 ^ 52) * 2 powi e \<le> q" by (simp only: split)
  then have "rat_of_int (2 ^ 52) \<le> q / 2 powi e"
    using pe by (simp add: field_simps)
  then have "2 ^ 52 \<le> m" unfolding m_def by (rule round_even_ge)
  then have "rat_of_int (2 ^ 52) \<le> of_int m" by (simp only: of_int_le_iff)
  then have "rat_of_int (2 ^ 52) * 2 powi e \<le> of_int m * 2 powi e"
    using pe by (simp only: mult_le_cancel_right_pos)
  then have "(2::rat) powi (floorlog2 q) \<le> of_int m * 2 powi e" by (simp only: split)
  moreover have "(2::rat) powi 1024 \<le> 2 powi (floorlog2 q)"
    using fl by (intro power_int_increasing) simp_all
  ultimately have big: "(2::rat) powi 1024 \<le> of_int m * 2 powi e" by (rule order_trans [rotated])
  have "round_double q = (if 2 powi 1024 \<le> of_int m * (2::rat) powi e then PInf
                          else Fin (of_int m * 2 powi e))"
    using q1 unfolding round_double_def aq Let_def e_def m_def by simp
  then show ?thesis using big by simp
qed

text \<open>
  The 12 percent tax on an integer price up to \<open>10 ^ 14\<close>: the double product with
  \<open>0.88\<close>, rounded down, is the exact quotient.
\<close>

lemma tax_bracket:
  assumes "0 < s" and "s \<le> 10 ^ 14"
  shows "\<exists>r. round_double (rat_of_int s * (7926335344172073 / 2 ^ 53)) = Fin r \<and> \<lfloor>r\<rfloor> = (s * 88) div 100"
proof -
  define k where "k = (s * 22) div 25"
  define rho where "rho = (s * 22) mod 25"
  have k88: "(s * 88) div 100 = k"
    using div_mult_mult1 [of 4 "s * 22" 25] by (simp add: k_def mult.commute mult.assoc)
  have dm: "s * 22 = 25 * k + rho" by (simp add: k_def rho_def)
  have rho: "0 \<le> rho" "rho \<le> 24" by (simp_all add: rho_def) 
  have kk: "0 \<le> k" using assms(1) by (simp add: k_def pos_imp_zdiv_nonneg_iff)
  have kub: "k < 2 ^ 47" using assms(2) dm rho by simp
  let ?q = "rat_of_int s * (7926335344172073 / 2 ^ 53)"
  have qeq: "?q = of_int k + of_int rho / 25 + of_int s / (25 * 2 ^ 53)"
  proof -
    have "rat_of_int (s * 22) = of_int (25 * k + rho)" using dm by simp
    then have "rat_of_int s * 22 = 25 * of_int k + of_int rho" by simp
    then have "rat_of_int s = (25 * of_int k + of_int rho) / 22" by simp
    then show ?thesis by (simp add: field_simps)
  qed
  have s1: "rat_of_int s / (25 * 2 ^ 53) \<le> 1 / 1000"
  proof -
    have "rat_of_int s \<le> rat_of_int (10 ^ 14)" using assms(2) by (simp only: of_int_le_iff)
    then show ?thesis by (simp add: field_simps)
  qed
  have s0: "0 \<le> rat_of_int s / (25 * 2 ^ 53)" using assms(1) by simp
  have r1: "0 \<le> rat_of_int rho / 25" using rho(1) by simp
  have r2: "rat_of_int rho / 25 \<le> 24 / 25"
  proof -
    have "rat_of_int rho \<le> rat_of_int 24" using rho(2) by (simp only: of_int_le_iff)
    then show ?thesis by simp
  qed
  have lo: "rat_of_int k \<le> ?q" using qeq r1 s0 by linarith
  have hi: "?q \<le> rat_of_int k + 63 / 64" using qeq r2 s1 by linarith
  have k1: "rat_of_int k + 1 \<le> 2 ^ 47"
  proof -
    have "k + 1 \<le> 2 ^ 47" using kub by simp
    then have "rat_of_int (k + 1) \<le> rat_of_int (2 ^ 47)" by (simp only: of_int_le_iff)
    then show ?thesis by simp
  qed
  have qpos: "0 < ?q"
    using assms(1) by simp
  have A: "rat_of_int (64 * k) * 2 powi (- 6) \<le> ?q" using lo by simp
  have B: "?q \<le> rat_of_int (64 * k + 63) * 2 powi (- 6)" using hi by (simp add: field_simps)
  have lt: "?q < 2 powi (53 + (- 6))" using hi k1 by simp
  have fin: "rat_of_int (64 * k + 63) * 2 powi (- 6) < 2 powi 1024"
  proof -
    have "rat_of_int (64 * k + 63) * 2 powi (- 6) = rat_of_int k + 63 / 64" by (simp add: field_simps)
    also have "\<dots> < 2 powi 47" using k1 by simp
    also have "\<dots> \<le> 2 powi 1024" by (rule power_int_increasing) simp_all
    finally show ?thesis .
  qed
  obtain r where r: "round_double ?q = Fin r"
    and rl: "rat_of_int (64 * k) * 2 powi (- 6) \<le> r"
    and ru: "r \<le> rat_of_int (64 * k + 63) * 2 powi (- 6)"
    using round_double_between [OF qpos lt _ A B fin] by auto
  have "rat_of_int k \<le> r" using rl by simp
  moreover have "r < rat_of_int k + 1" using ru by (simp add: field_simps)
  ultimately have "\<lfloor>r\<rfloor> = k" by (simp add: floor_unique)
  then show ?thesis using r k88 by simp
qed

section \<open>Integers as doubles\<close>




section \<open>Prices\<close>

lemma digit_not_ws: "isDigit c \<Longrightarrow> \<not> isWhiteSpace c"
  by (auto simp: isDigit_def isWhiteSpace_def)

lemma digit_not_sign: "isDigit c \<Longrightarrow> c \<noteq> CHR ''-'' \<and> c \<noteq> CHR ''+''"
  by (auto simp: isDigit_def)

lemma digit_not_comma: "isDigit c \<Longrightarrow> c \<noteq> CHR '',''"
  by (auto simp: isDigit_def)

lemma digitVal_nonneg: "isDigit c \<Longrightarrow> 0 \<le> digitVal c"
  by (simp add: isDigit_def digitVal_def)

lemma foldl_digits_nonneg:
  "0 \<le> a \<Longrightarrow> \<forall>c \<in> set ds. isDigit c \<Longrightarrow> 0 \<le> foldl (\<lambda>a c. 10 * a + digitVal c) a ds"
proof (induction ds arbitrary: a)
  case Nil
  then show ?case by simp
next
  case (Cons c cs)
  have "0 \<le> 10 * a + digitVal c" using Cons.prems digitVal_nonneg [of c] by simp
  then show ?case using Cons by simp
qed

lemma decimal_nonneg: "\<forall>c \<in> set ds. isDigit c \<Longrightarrow> 0 \<le> decimal ds"
  unfolding decimal_def by (rule foldl_digits_nonneg) simp_all

lemma parseInt_digits:
  assumes "ds \<noteq> []" and "\<forall>c \<in> set ds. isDigit c"
  shows "parseInt ds = round_double (of_int (decimal ds))"
proof -
  obtain c cs where ds: "ds = c # cs" using assms(1) by (cases ds) auto
  have c: "isDigit c" using assms(2) ds by simp
  have dw: "dropWhile isWhiteSpace ds = ds"
    using c ds by (simp add: digit_not_ws)
  have tw: "takeWhile isDigit ds = ds"
    using assms(2) by (simp add: takeWhile_eq_all_conv)
  show ?thesis
    unfolding parseInt_def dw
    using digit_not_sign [OF c] tw by (simp add: ds Let_def)
qed

lemma comma_grouped_digits:
  assumes "comma_grouped s"
  shows "replace_commas s \<noteq> []" and "\<forall>c \<in> set (replace_commas s). isDigit c"
    and "replace_commas s = filter isDigit s"
proof -
  obtain c cs where s: "s = c # cs" and c: "isDigit c"
    using assms by (cases s) (auto simp: comma_grouped_def)
  show "replace_commas s \<noteq> []"
    using s digit_not_comma [OF c] by (simp add: replace_commas_def)
  have all: "\<forall>c \<in> set s. isDigit c \<or> c = CHR '',''"
    using assms by (simp add: comma_grouped_def list_all_iff)
  then show "\<forall>c \<in> set (replace_commas s). isDigit c"
    by (auto simp: replace_commas_def)
  show "replace_commas s = filter isDigit s"
    unfolding replace_commas_def
    by (rule filter_cong) (use all digit_not_comma in auto)
qed

lemma decimal_snoc: "decimal (ds @ [c]) = 10 * decimal ds + digitVal c"
  by (simp add: decimal_def)

lemma decimal_nines: "decimal (replicate n CHR ''9'') = 10 ^ n - 1"
proof (induction n)
  case 0
  then show ?case by (simp add: decimal_def)
next
  case (Suc n)
  have "replicate (Suc n) CHR ''9'' = replicate n CHR ''9'' @ [CHR ''9'']"
    by (simp add: replicate_append_same)
  then have "decimal (replicate (Suc n) CHR ''9'') = 10 * decimal (replicate n CHR ''9'') + 9"
    by (simp only: decimal_snoc) (simp add: digitVal_def)
  then show ?case using Suc by simp
qed

text \<open>
  C3, as amended: an entry that is stored, with a price that is a number or a
  comma-grouped string whose digits spell a number below \<open>10 ^ 308\<close>, leaves under its id
  a record whose \<open>minimumPrice\<close> is an integer; it is the number itself, and for a string
  whose digits spell a number below \<open>2 ^ 53\<close> it is that number. The string \<open>1,234\<close> is
  stored as 1234.
\<close>

theorem minimumPrice_is_integer:
  assumes "\<not> skipped e"
    and "case item_price_minimum e of
           PNum n \<Rightarrow> True
         | PStr s \<Rightarrow> comma_grouped s \<and> decimal (filter isDigit s) < 10 ^ 308"
  shows "map_of (store_item os e) (item_id e) = Some (make_itemData e)
       \<and> isInteger (minimumPrice (make_itemData e))
       \<and> (case item_price_minimum e of
             PNum n \<Rightarrow> minimumPrice (make_itemData e) = Fin (of_int n)
           | PStr s \<Rightarrow>
               decimal (filter isDigit s) < 2 ^ 53 \<longrightarrow>
               minimumPrice (make_itemData e) = Fin (of_int (decimal (filter isDigit s))))
       \<and> minimumPrice (make_itemData (e\<lparr>item_price_minimum := PStr ''1,234''\<rparr>)) = Fin 1234"
proof -
  have 1: "map_of (store_item os e) (item_id e) = Some (make_itemData e)"
    using assms(1) by (simp add: map_of_store_item)
  have 23: "isInteger (minimumPrice (make_itemData e))
       \<and> (case item_price_minimum e of
             PNum n \<Rightarrow> minimumPrice (make_itemData e) = Fin (of_int n)
           | PStr s \<Rightarrow>
               decimal (filter isDigit s) < 2 ^ 53 \<longrightarrow>
               minimumPrice (make_itemData e) = Fin (of_int (decimal (filter isDigit s))))"
  proof (cases "item_price_minimum e")
    case (PNum n)
    then show ?thesis by (simp add: make_itemData_def)
  next
    case (PStr s)
    then have cg: "comma_grouped s" and small: "decimal (filter isDigit s) < 10 ^ 308"
      using assms(2) by simp_all
    let ?v = "decimal (filter isDigit s)"
    have f: "replace_commas s = filter isDigit s" using cg by (rule comma_grouped_digits(3))
    have v0: "0 \<le> ?v"
      using comma_grouped_digits(2) [OF cg] unfolding f by (rule decimal_nonneg)
    have "parseInt (replace_commas s) = round_double (of_int (decimal (replace_commas s)))"
      using comma_grouped_digits(1,2) [OF cg] by (rule parseInt_digits)
    then have mp: "minimumPrice (make_itemData e) = round_double (of_int ?v)"
      using PStr by (simp add: make_itemData_def f)
    have exact: "round_double (of_int ?v) = Fin (of_int ?v)" if "?v < 2 ^ 53"
      using that v0 by (intro round_double_int) simp
    have int: "isInteger (round_double (of_int ?v))"
    proof (cases "?v < 2 ^ 53")
      case True
      then show ?thesis by (simp add: exact)
    next
      case False
      have big: "2 ^ 53 \<le> rat_of_int ?v"
      proof -
        have "2 ^ 53 \<le> ?v" using False by simp
        then have "rat_of_int (2 ^ 53) \<le> rat_of_int ?v" by (simp only: of_int_le_iff)
        then show ?thesis by simp
      qed
      have lt: "rat_of_int ?v < rat_of_int (10 ^ 308)" using small by (simp only: of_int_less_iff)
      have pos: "0 < rat_of_int ?v" using big by simp
      have "\<exists>r. round_double (rat_of_int ?v) = Fin r
                \<and> rat_of_int 0 * 2 powi 971 \<le> r \<and> r \<le> rat_of_int (2 ^ 53 - 1) * 2 powi 971"
        using pos lt by (intro round_double_between) simp_all
      then obtain r where "round_double (rat_of_int ?v) = Fin r" by blast
      then show ?thesis using round_double_large_integer [OF big] by simp
    qed
    show ?thesis using PStr mp int exact by simp
  qed
  have 4: "minimumPrice (make_itemData (e\<lparr>item_price_minimum := PStr ''1,234''\<rparr>)) = Fin 1234"
    by (simp add: make_itemData_def replace_commas_def parseInt_def isWhiteSpace_def
        isDigit_def decimal_def digitVal_def round_double_numeral)
  show ?thesis using 1 23 4 by simp
qed

text \<open>
  C3 as worded fails on a price string of 310 nines: it is comma-grouped, the entry is
  stored, and the \<open>minimumPrice\<close> stored is the infinity, which is not an integer.
\<close>

theorem huge_price_string_counterexample:
  "comma_grouped (replicate 310 CHR ''9'')
   \<and> map_of (store_item []
        \<lparr>item_id = 1, item_hashed_id = ''a'',
         item_price_minimum = PStr (replicate 310 CHR ''9''),
         item_name = ''Iron Ore'', item_tier = Some 1\<rparr>) 1
       = Some \<lparr>d_id = 1, d_hashed_id = ''a'', minimumPrice = PInf,
                d_name = ''Iron Ore'', d_tier = Some 1\<rparr>
   \<and> \<not> isInteger PInf"
proof -
  let ?s = "replicate 310 CHR ''9''"
  have nine: "isDigit CHR ''9''" by (simp add: isDigit_def)
  have cg: "comma_grouped ?s"
    using nine by (simp add: comma_grouped_def list_all_iff)
  have rc: "replace_commas ?s = ?s" by (simp add: replace_commas_def)
  have "parseInt ?s = round_double (of_int (decimal ?s))"
    using nine by (intro parseInt_digits) simp_all
  also have "\<dots> = round_double (10 ^ 310 - 1)" by (simp add: decimal_nines)
  also have "\<dots> = PInf" by (rule round_double_overflow) simp
  finally have "parseInt ?s = PInf" .
  then show ?thesis
    using cg by (simp add: store_item_def skipped_def put_def make_itemData_def rc)
qed

section \<open>Idempotence\<close>

lemma filter_update_key:
  "distinct (map fst os) \<Longrightarrow> filter (\<lambda>p. fst p = k) (AList.update k v os) = [(k, v)]"
proof (induction os)
  case Nil
  then show ?case by simp
next
  case (Cons p ps)
  show ?case
  proof (cases "fst p = k")
    case True
    have nk: "k \<notin> set (map fst ps)" using Cons.prems True by simp
    have "filter (\<lambda>p. fst p = k) ps = []"
      unfolding filter_empty_conv
    proof (intro ballI notI)
      fix q assume "q \<in> set ps" and "fst q = k"
      then have "k \<in> set (map fst ps)" by (metis image_eqI set_map)
      with nk show False by simp
    qed
    then show ?thesis using True by (cases p) simp
  next
    case False
    then show ?thesis using Cons by (cases p) simp
  qed
qed

text \<open>
  C8, as amended: storing an entry twice, in one batch or in two batches one after the
  other, gives the state that storing it once gives; and when the entry is one that is
  written (its tier is absent or at most 1), the store (with one record per key before)
  then holds exactly one record of its id, the record made of the entry, and the records
  of the other ids as before.
\<close>

theorem upsert_idempotent:
  "storeItemsIndexedDB (storeItemsIndexedDB \<lparr>db = Some os, stalledXHR = []\<rparr> [e]) [e]
     = storeItemsIndexedDB \<lparr>db = Some os, stalledXHR = []\<rparr> [e]
   \<and> storeItemsIndexedDB \<lparr>db = Some os, stalledXHR = []\<rparr> [e, e]
     = storeItemsIndexedDB \<lparr>db = Some os, stalledXHR = []\<rparr> [e]
   \<and> (\<not> skipped e \<and> distinct (map fst os) \<longrightarrow>
        (\<exists>os'. storeItemsIndexedDB (storeItemsIndexedDB \<lparr>db = Some os, stalledXHR = []\<rparr> [e]) [e]
                 = \<lparr>db = Some os', stalledXHR = []\<rparr>
             \<and> filter (\<lambda>p. fst p = item_id e) os' = [(item_id e, make_itemData e)]
             \<and> (\<forall>k. k \<noteq> item_id e \<longrightarrow> map_of os' k = map_of os k)))"
proof -
  let ?st = "\<lparr>db = Some os, stalledXHR = []\<rparr>"
  have once: "storeItemsIndexedDB ?st [e] = \<lparr>db = Some (store_item os e), stalledXHR = []\<rparr>"
    by (simp add: storeItems_ready store_batch_def)
  have idem: "store_item (store_item os e) e = store_item os e"
    by (simp add: store_item_def put_def)
  have twice: "storeItemsIndexedDB (storeItemsIndexedDB ?st [e]) [e]
      = \<lparr>db = Some (store_item os e), stalledXHR = []\<rparr>"
    by (simp add: once storeItems_ready store_batch_def idem)
  have both: "storeItemsIndexedDB ?st [e, e]
      = \<lparr>db = Some (store_item os e), stalledXHR = []\<rparr>"
    by (simp add: storeItems_ready store_batch_def idem)
  have one: "filter (\<lambda>p. fst p = item_id e) (store_item os e) = [(item_id e, make_itemData e)]"
    if "\<not> skipped e" "distinct (map fst os)"
    using that filter_update_key [of os "item_id e" "make_itemData e"]
    by (simp add: store_item_def put_def make_itemData_def)
  have others: "\<forall>k. k \<noteq> item_id e \<longrightarrow> map_of (store_item os e) k = map_of os k"
    by (simp add: map_of_store_item)
  have last: "\<not> skipped e \<and> distinct (map fst os) \<longrightarrow>
        (\<exists>os'. storeItemsIndexedDB (storeItemsIndexedDB ?st [e]) [e]
                 = \<lparr>db = Some os', stalledXHR = []\<rparr>
             \<and> filter (\<lambda>p. fst p = item_id e) os' = [(item_id e, make_itemData e)]
             \<and> (\<forall>k. k \<noteq> item_id e \<longrightarrow> map_of os' k = map_of os k))"
  proof (intro impI)
    assume h: "\<not> skipped e \<and> distinct (map fst os)"
    show "\<exists>os'. storeItemsIndexedDB (storeItemsIndexedDB ?st [e]) [e]
                 = \<lparr>db = Some os', stalledXHR = []\<rparr>
             \<and> filter (\<lambda>p. fst p = item_id e) os' = [(item_id e, make_itemData e)]
             \<and> (\<forall>k. k \<noteq> item_id e \<longrightarrow> map_of os' k = map_of os k)"
      using twice one others h by (intro exI [of _ "store_item os e"]) blast
  qed
  have 1: "storeItemsIndexedDB (storeItemsIndexedDB ?st [e]) [e] = storeItemsIndexedDB ?st [e]"
    by (subst twice, subst once, rule refl)
  have 2: "storeItemsIndexedDB ?st [e, e] = storeItemsIndexedDB ?st [e]"
    by (subst both, subst once, rule refl)
  show ?thesis using 1 2 last by blast
qed

text \<open>
  C8 as worded fails on an entry of tier 2: stored twice into the empty store, it leaves
  no record of its id.
\<close>

theorem upsert_tier2_counterexample:
  "storeItemsIndexedDB
     (storeItemsIndexedDB \<lparr>db = Some [], stalledXHR = []\<rparr>
        [\<lparr>item_id = 2, item_hashed_id = ''b'', item_price_minimum = PNum 500,
          item_name = ''Refined Iron'', item_tier = Some 2\<rparr>])
     [\<lparr>item_id = 2, item_hashed_id = ''b'', item_price_minimum = PNum 500,
       item_name = ''Refined Iron'', item_tier = Some 2\<rparr>]
   = \<lparr>db = Some [], stalledXHR = []\<rparr>"
  by (simp add: storeItems_ready store_batch_def store_item_def skipped_def)

section \<open>Resolution\<close>

lemma vendor_names_distinct: "distinct (map v_name VENDOR_ITEMS)"
  by (simp add: VENDOR_ITEMS_def)

lemma find_distinct:
  "distinct (map f xs) \<Longrightarrow> x \<in> set xs \<Longrightarrow> find (\<lambda>y. f y = f x) xs = Some x"
proof (induction xs)
  case Nil
  then show ?case by simp
next
  case (Cons y ys)
  show ?case
  proof (cases "y = x")
    case True
    then show ?thesis by simp
  next
    case False
    then have x: "x \<in> set ys" using Cons.prems(2) by simp
    then have "f x \<in> f ` set ys" by (rule imageI)
    then have "f y \<noteq> f x" using Cons.prems(1) by auto
    then show ?thesis using Cons.IH x Cons.prems(1) by simp
  qed
qed

lemma find_vendor_member:
  "v \<in> set VENDOR_ITEMS \<Longrightarrow> findVendorItemByName (v_name v) = Some v"
  unfolding findVendorItemByName_def using vendor_names_distinct by (rule find_distinct)

text \<open>
  C7: a name that an entry of the vendor table carries resolves to the object built from
  that entry, with the table's price as \<open>minimumPrice\<close>, and the answer is the same
  whatever the state of the store is (whether connected, and whatever it holds under
  that name).
\<close>

theorem catalog_has_priority:
  assumes "v \<in> set VENDOR_ITEMS" and "v_name v = n"
  shows "getItemByNameIndexedDB st n = Inr (Vendor n (v_id v) (v_price v))
       \<and> resolved_minimumPrice (Vendor n (v_id v) (v_price v)) = Fin (of_int (v_price v))
       \<and> getItemByNameIndexedDB st' n = getItemByNameIndexedDB st n"
  using assms find_vendor_member [OF assms(1)] by (auto simp: getItemByNameIndexedDB_def)

theorem catalog_has_priority_witness:
  "\<lparr>v_id = 63, v_name = ''Cheap Vial'', v_price = 5\<rparr> \<in> set VENDOR_ITEMS
   \<and> index_get [(900, \<lparr>d_id = 900, d_hashed_id = ''h'', minimumPrice = Fin 2,
                         d_name = ''Cheap Vial'', d_tier = None\<rparr>)] ''Cheap Vial''
       = Some \<lparr>d_id = 900, d_hashed_id = ''h'', minimumPrice = Fin 2,
                d_name = ''Cheap Vial'', d_tier = None\<rparr>
   \<and> getItemByNameIndexedDB
        \<lparr>db = Some [(900, \<lparr>d_id = 900, d_hashed_id = ''h'', minimumPrice = Fin 2,
                             d_name = ''Cheap Vial'', d_tier = None\<rparr>)], stalledXHR = []\<rparr>
        ''Cheap Vial'' = Inr (Vendor ''Cheap Vial'' 63 5)"
proof -
  have h: "\<lparr>v_id = 63, v_name = ''Cheap Vial'', v_price = 5\<rparr> \<in> set VENDOR_ITEMS"
    by (simp add: VENDOR_ITEMS_def)
  show ?thesis
    using h catalog_has_priority [OF h, of "''Cheap Vial''"] by (simp add: index_get_def)
qed

section \<open>Profit\<close>

lemma floor_rat_numeral:
  "\<lfloor>(numeral a :: rat) / numeral b\<rfloor> = numeral a div numeral b"
  using floor_divide_of_int_eq [where ?'a = rat, of "numeral a" "numeral b"] by simp

lemma tax_floor:
  assumes "0 \<le> s" and "s \<le> 10 ^ 14"
  shows "Math_floor (jmul (Fin (of_int s)) lit_0_88) = Fin (of_int ((s * 88) div 100))"
proof (cases "s = 0")
  case True
  then show ?thesis by (simp add: lit_0_88_value)
next
  case False
  then have pos: "0 < s" using assms(1) by simp
  have "jmul (Fin (of_int s)) lit_0_88
      = round_double (rat_of_int s * (7926335344172073 / 2 ^ 53))"
    by (simp only: lit_0_88_value jmul.simps)
  moreover obtain r where "round_double (rat_of_int s * (7926335344172073 / 2 ^ 53)) = Fin r"
    and "\<lfloor>r\<rfloor> = (s * 88) div 100"
    using tax_bracket [OF pos assms(2)] by blast
  ultimately show ?thesis by simp
qed

lemma craft_profit_sell:
  assumes "craft_profit st b = Some (Inr p)"
  shows "sell_prices st (recipeName p) = Inr (recipeSellPrice p, recipeSellPriceWithTax p)"
  using assms
  by (auto simp: craft_profit_def Let_def split: option.splits sum.splits prod.splits)

text \<open>
  C4, as amended: in the figures of a recipe other than \<open>Cooked Cod\<close> the sell price after
  tax is the floor of the sell price times \<open>0.88\<close>, computed in doubles (for an integer
  sell price \<open>s\<close> from 0 to \<open>10 ^ 14\<close>, the integer quotient of \<open>88 s\<close> by 100); for
  \<open>Cooked Cod\<close> the sell price and the sell price after tax are both the fixed 2, with no
  tax taken off.
\<close>

theorem sell_price_after_tax:
  assumes "craft_profit st b = Some (Inr p)"
  shows "(recipeName p = ''Cooked Cod'' \<longrightarrow>
            recipeSellPrice p = Fin 2 \<and> recipeSellPriceWithTax p = Fin 2)
       \<and> (recipeName p \<noteq> ''Cooked Cod'' \<longrightarrow>
            recipeSellPriceWithTax p = Math_floor (jmul (recipeSellPrice p) lit_0_88)
          \<and> (\<forall>s. 0 \<le> s \<and> s \<le> 10 ^ 14 \<and> recipeSellPrice p = Fin (of_int s) \<longrightarrow>
                recipeSellPriceWithTax p = Fin (of_int ((s * 88) div 100))))"
proof -
  have sp: "sell_prices st (recipeName p) = Inr (recipeSellPrice p, recipeSellPriceWithTax p)"
    using assms by (rule craft_profit_sell)
  have cod: "recipeSellPrice p = Fin 2 \<and> recipeSellPriceWithTax p = Fin 2"
    if "recipeName p = ''Cooked Cod''"
    using sp that by (auto simp: sell_prices_def)
  have tax: "recipeSellPriceWithTax p = Math_floor (jmul (recipeSellPrice p) lit_0_88)"
    if "recipeName p \<noteq> ''Cooked Cod''"
    using sp that by (auto simp: sell_prices_def split: sum.splits)
  have int: "recipeSellPriceWithTax p = Fin (of_int ((s * 88) div 100))"
    if "recipeName p \<noteq> ''Cooked Cod''" "0 \<le> s" "s \<le> 10 ^ 14"
      "recipeSellPrice p = Fin (of_int s)" for s
    using tax [OF that(1)] tax_floor [OF that(2,3)] that(4) by simp
  show ?thesis using cod tax int by blast
qed

lemma tax_2: "Math_floor (jmul (Fin 2) lit_0_88) = Fin 1"
  using tax_floor [of 2] by simp

text \<open>
  C4 as worded fails on the recipe \<open>Cooked Cod\<close>: its sell price is 2 and its sell price
  after tax is 2 as well, where the floor of 2 times \<open>0.88\<close> is 1.
\<close>

theorem cooked_cod_not_taxed_counterexample:
  "craft_profit \<lparr>db = None, stalledXHR = []\<rparr>
     \<lparr>nameSpan = Some ''Cooked Cod'', craftTimeSpan = Some (Fin 10),
      requirementsContainer = Some []\<rparr>
   = Some (Inr \<lparr>recipeName = ''Cooked Cod'', recipeSellPrice = Fin 2,
                 recipeSellPriceWithTax = Fin 2, craftTimeSeconds = Fin 10,
                 requirements = [], totalCost = Fin 0, totalProfit = Fin 2,
                 numPerHour = Fin 360, profitPerHour = Fin 720\<rparr>)
   \<and> Math_floor (jmul (Fin 2) lit_0_88) = Fin 1
   \<and> Fin 2 \<noteq> Math_floor (jmul (Fin 2) lit_0_88)"
  by (simp add: craft_profit_def sell_prices_def trim_def isWhiteSpace_def sum_totalPrice_def
      jsub_def Let_def floor_rat_numeral round_double_numeral tax_2)

lemma requirements_all_skip:
  "requirement_of st sp = Inr [] \<Longrightarrow>
   requirements_all st (xs @ sp # ys) = requirements_all st (xs @ ys)"
  by (induction xs) (simp_all split: sum.splits)

lemma malformed_requirement_of:
  assumes "quantitySpan sp = None \<or> itemNameSpan sp = None
           \<or> (\<exists>qt. quantitySpan sp = Some qt \<and> isNaN (parseInt (trim qt)))
           \<or> (\<exists>nt. itemNameSpan sp = Some nt \<and> trim nt = [])"
  shows "requirement_of st sp = Inr []"
  using assms by (auto simp: requirement_of_def Let_def split: option.splits)

text \<open>
  C10: a requirement span whose quantity text does not read as an integer, or whose item
  name is empty, pushes no entry and looks no price up, whatever the state; the
  requirements, and so the figures of the recipe, are those of the recipe without the
  span.
\<close>

theorem malformed_requirement_skipped:
  assumes "quantitySpan sp = Some qt" and "itemNameSpan sp = Some nt"
    and "isNaN (parseInt (trim qt)) \<or> trim nt = []"
  shows "requirement_of st sp = Inr []
       \<and> requirements_all st (xs @ sp # ys) = requirements_all st (xs @ ys)
       \<and> craft_profit st (b\<lparr>requirementsContainer := Some (xs @ sp # ys)\<rparr>)
           = craft_profit st (b\<lparr>requirementsContainer := Some (xs @ ys)\<rparr>)"
proof -
  have 1: "requirement_of st sp = Inr []"
    using assms by (intro malformed_requirement_of) auto
  have 2: "requirements_all st (xs @ sp # ys) = requirements_all st (xs @ ys)"
    using 1 by (rule requirements_all_skip)
  show ?thesis
    using 1 by (simp add: craft_profit_def 2 cong: sum.case_cong prod.case_cong split: option.splits)
qed

lemma requirements_all_error:
  "sp \<in> set spans \<Longrightarrow> requirement_of st sp = Inl e \<Longrightarrow> \<exists>e'. requirements_all st spans = Inl e'"
  by (induction spans) (auto split: sum.splits)

lemma unresolved_requirement_of:
  assumes "quantitySpan sp = Some qt" and "itemNameSpan sp = Some nt"
    and "\<not> isNaN (parseInt (trim qt))" and "trim nt \<noteq> []"
    and "findVendorItemByName (trim nt) = None"
    and "case db st of None \<Rightarrow> True | Some os \<Rightarrow> index_get os (trim nt) = None"
  shows "\<exists>e. requirement_of st sp = Inl e"
  using assms
  by (cases "db st") (simp_all add: requirement_of_def Let_def getItemByNameIndexedDB_def)

lemma render_loop_no_figure:
  "\<not> (\<exists>p. craft_profit st b = Some (Inr p)) \<Longrightarrow>
   fst (render_loop st (bs @ [b])) = fst (render_loop st bs)"
proof (induction bs)
  case Nil
  then show ?case by (auto split: option.splits sum.splits)
next
  case (Cons a bs)
  then show ?case by (auto split: option.splits sum.splits prod.splits)
qed

text \<open>
  C5, as amended: a recipe with a requirement whose quantity reads as a number and whose
  item name, not empty, is in neither the vendor table nor the store gets no figures: no
  turn of the loop computes any for it, and a page shows the figures it shows without
  the recipe at its end.
\<close>

theorem unresolved_requirement_no_figure:
  assumes "requirementsContainer b = Some spans" and "sp \<in> set spans"
    and "quantitySpan sp = Some qt" and "itemNameSpan sp = Some nt"
    and "\<not> isNaN (parseInt (trim qt))" and "trim nt \<noteq> []"
    and "findVendorItemByName (trim nt) = None"
    and "case db st of None \<Rightarrow> True | Some os \<Rightarrow> index_get os (trim nt) = None"
  shows "\<not> (\<exists>p. craft_profit st b = Some (Inr p))
       \<and> fst (render_loop st (bs @ [b])) = fst (render_loop st bs)"
proof -
  obtain e where "requirement_of st sp = Inl e"
    using unresolved_requirement_of [OF assms(3-8)] by blast
  then obtain e' where "requirements_all st spans = Inl e'"
    using requirements_all_error [OF assms(2)] by blast
  then have "\<not> (\<exists>p. craft_profit st b = Some (Inr p))"
    using assms(1) by (auto simp: craft_profit_def split: option.splits sum.splits prod.splits)
  then show ?thesis using render_loop_no_figure by blast
qed









section \<open>Instances\<close>

text \<open>
  C1 at two batches that write the same id: the later price, 900, is the one left.
\<close>

theorem queued_batches_applied_in_order_witness:
  "(\<exists>e \<in> set [\<lparr>item_id = 1, item_hashed_id = ''a'', item_price_minimum = PNum 900,
                  item_name = ''Iron Ore'', item_tier = Some 1\<rparr>]. item_id e = 1 \<and> \<not> skipped e)
   \<and> onsuccess
        (storeItemsIndexedDB
          (storeItemsIndexedDB \<lparr>db = None, stalledXHR = []\<rparr>
            [\<lparr>item_id = 1, item_hashed_id = ''a'', item_price_minimum = PStr ''1,000'',
              item_name = ''Iron Ore'', item_tier = Some 1\<rparr>])
          [\<lparr>item_id = 1, item_hashed_id = ''a'', item_price_minimum = PNum 900,
            item_name = ''Iron Ore'', item_tier = Some 1\<rparr>])
        []
       = Some \<lparr>db = Some [(1, \<lparr>d_id = 1, d_hashed_id = ''a'', minimumPrice = Fin 900,
                                 d_name = ''Iron Ore'', d_tier = Some 1\<rparr>)],
                stalledXHR = []\<rparr>"
  using queued_batches_applied_in_order
    [of "[]" "[]" "[\<lparr>item_id = 1, item_hashed_id = ''a'', item_price_minimum = PStr ''1,000'',
           item_name = ''Iron Ore'', item_tier = Some 1\<rparr>]"
        "[\<lparr>item_id = 1, item_hashed_id = ''a'', item_price_minimum = PNum 900,
           item_name = ''Iron Ore'', item_tier = Some 1\<rparr>]" 1]
  by (simp add: store_batch_def store_item_def skipped_def put_def make_itemData_def)

text \<open>
  C2 at Scenario B: the entry of tier 2 leaves the empty store empty.
\<close>

theorem higher_tier_entry_skipped_witness:
  "item_tier \<lparr>item_id = 2, item_hashed_id = ''b'', item_price_minimum = PNum 500,
              item_name = ''Refined Iron'', item_tier = Some 2\<rparr> = Some 2
   \<and> (2 :: int) > 1
   \<and> store_batch []
        [\<lparr>item_id = 2, item_hashed_id = ''b'', item_price_minimum = PNum 500,
          item_name = ''Refined Iron'', item_tier = Some 2\<rparr>] = []
   \<and> map_of (store_batch []
        [\<lparr>item_id = 2, item_hashed_id = ''b'', item_price_minimum = PNum 500,
          item_name = ''Refined Iron'', item_tier = Some 2\<rparr>]) 2 = None"
  using higher_tier_entry_skipped
    [where e = "\<lparr>item_id = 2, item_hashed_id = ''b'', item_price_minimum = PNum 500,
                 item_name = ''Refined Iron'', item_tier = Some 2\<rparr>"
       and t = 2 and os = "[]" and xs = "[]" and ys = "[]"
       and data = "[\<lparr>item_id = 2, item_hashed_id = ''b'', item_price_minimum = PNum 500,
                     item_name = ''Refined Iron'', item_tier = Some 2\<rparr>]"]
  by (simp add: skipped_def store_batch_def)

text \<open>
  C3 at Scenario A: the price string \<open>1,000\<close> is stored as the integer 1000.
\<close>

theorem minimumPrice_is_integer_witness:
  "\<not> skipped \<lparr>item_id = 1, item_hashed_id = ''a'', item_price_minimum = PStr ''1,000'',
               item_name = ''Iron Ore'', item_tier = Some 1\<rparr>
   \<and> comma_grouped ''1,000'' \<and> decimal (filter isDigit ''1,000'') < 2 ^ 53
   \<and> map_of (store_item []
        \<lparr>item_id = 1, item_hashed_id = ''a'', item_price_minimum = PStr ''1,000'',
         item_name = ''Iron Ore'', item_tier = Some 1\<rparr>) 1
       = Some \<lparr>d_id = 1, d_hashed_id = ''a'', minimumPrice = Fin 1000,
                d_name = ''Iron Ore'', d_tier = Some 1\<rparr>
   \<and> isInteger (Fin 1000)"
proof -
  let ?e = "\<lparr>item_id = 1, item_hashed_id = ''a'', item_price_minimum = PStr ''1,000'',
             item_name = ''Iron Ore'', item_tier = Some 1\<rparr>"
  have h1: "\<not> skipped ?e" by (simp add: skipped_def)
  have cg: "comma_grouped ''1,000''" by (simp add: comma_grouped_def isDigit_def)
  have d: "decimal (filter isDigit ''1,000'') = 1000"
    by (simp add: isDigit_def decimal_def digitVal_def)
  have lt53: "decimal (filter isDigit ''1,000'') < 2 ^ 53" unfolding d by simp
  have lt308: "decimal (filter isDigit ''1,000'') < 10 ^ 308" unfolding d by simp
  have pm: "item_price_minimum ?e = PStr ''1,000''" by simp
  have h2: "case item_price_minimum ?e of
              PNum n \<Rightarrow> True
            | PStr s \<Rightarrow> comma_grouped s \<and> decimal (filter isDigit s) < 10 ^ 308"
    unfolding pm price_minimum.case using cg lt308 by (rule conjI)
  note T = minimumPrice_is_integer [OF h1 h2, of "[]", unfolded pm price_minimum.case]
  have a: "map_of (store_item [] ?e) (item_id ?e) = Some (make_itemData ?e)"
    using T by (rule conjunct1)
  have "minimumPrice (make_itemData ?e) = Fin (of_int (decimal (filter isDigit ''1,000'')))"
    using T lt53 by blast
  then have b: "minimumPrice (make_itemData ?e) = Fin 1000" unfolding d by simp
  have m: "make_itemData ?e = \<lparr>d_id = 1, d_hashed_id = ''a'',
             minimumPrice = minimumPrice (make_itemData ?e),
             d_name = ''Iron Ore'', d_tier = Some 1\<rparr>"
    by (simp add: make_itemData_def)
  have mk: "make_itemData ?e = \<lparr>d_id = 1, d_hashed_id = ''a'', minimumPrice = Fin 1000,
             d_name = ''Iron Ore'', d_tier = Some 1\<rparr>"
    by (subst m) (simp only: b)
  have id1: "item_id ?e = 1" by simp
  have st: "map_of (store_item [] ?e) 1
      = Some \<lparr>d_id = 1, d_hashed_id = ''a'', minimumPrice = Fin 1000,
               d_name = ''Iron Ore'', d_tier = Some 1\<rparr>"
    using a unfolding id1 mk .
  have int: "isInteger (Fin 1000)" by simp
  show ?thesis using h1 cg lt53 st int by (intro conjI)
qed

text \<open>
  C8, as amended, at an entry that overwrites the record of its id: one record of the id
  is left, the new one.
\<close>

theorem upsert_idempotent_witness:
  "\<not> skipped \<lparr>item_id = 1, item_hashed_id = ''a'', item_price_minimum = PNum 900,
               item_name = ''Iron Ore'', item_tier = None\<rparr>
   \<and> distinct (map fst [(1 :: int, \<lparr>d_id = 1, d_hashed_id = ''a'', minimumPrice = Fin 1000,
                                    d_name = ''Iron Ore'', d_tier = Some 1\<rparr>)])
   \<and> storeItemsIndexedDB
        (storeItemsIndexedDB
           \<lparr>db = Some [(1, \<lparr>d_id = 1, d_hashed_id = ''a'', minimumPrice = Fin 1000,
                               d_name = ''Iron Ore'', d_tier = Some 1\<rparr>)], stalledXHR = []\<rparr>
           [\<lparr>item_id = 1, item_hashed_id = ''a'', item_price_minimum = PNum 900,
             item_name = ''Iron Ore'', item_tier = None\<rparr>])
        [\<lparr>item_id = 1, item_hashed_id = ''a'', item_price_minimum = PNum 900,
          item_name = ''Iron Ore'', item_tier = None\<rparr>]
       = \<lparr>db = Some [(1, \<lparr>d_id = 1, d_hashed_id = ''a'', minimumPrice = Fin 900,
                               d_name = ''Iron Ore'', d_tier = None\<rparr>)], stalledXHR = []\<rparr>"
proof -
  let ?os = "[(1 :: int, \<lparr>d_id = 1, d_hashed_id = ''a'', minimumPrice = Fin 1000,
                          d_name = ''Iron Ore'', d_tier = Some 1\<rparr>)]"
  let ?e = "\<lparr>item_id = 1, item_hashed_id = ''a'', item_price_minimum = PNum 900,
             item_name = ''Iron Ore'', item_tier = None\<rparr>"
  have h: "\<not> skipped ?e \<and> distinct (map fst ?os)" by (simp add: skipped_def)
  have once: "storeItemsIndexedDB \<lparr>db = Some ?os, stalledXHR = []\<rparr> [?e]
      = \<lparr>db = Some [(1, \<lparr>d_id = 1, d_hashed_id = ''a'', minimumPrice = Fin 900,
                               d_name = ''Iron Ore'', d_tier = None\<rparr>)], stalledXHR = []\<rparr>"
    by (simp add: storeItems_ready store_batch_def store_item_def skipped_def put_def
        make_itemData_def)
  have "storeItemsIndexedDB (storeItemsIndexedDB \<lparr>db = Some ?os, stalledXHR = []\<rparr> [?e]) [?e]
      = storeItemsIndexedDB \<lparr>db = Some ?os, stalledXHR = []\<rparr> [?e]"
    using upsert_idempotent [of ?os ?e] by blast
  then show ?thesis using h once by simp
qed

lemmas eval_defs =
  craft_profit_def sell_prices_def getItemByNameIndexedDB_def findVendorItemByName_def
  VENDOR_ITEMS_def index_get_def trim_def isWhiteSpace_def requirement_of_def parseInt_def
  isDigit_def decimal_def digitVal_def sum_totalPrice_def jsub_def Let_def

lemma tax_100: "Math_floor (jmul (Fin 100) lit_0_88) = Fin 88"
  using tax_floor [of 100] by simp

text \<open>
  A page with one recipe: a potion the store prices at 100, made in 10 seconds of one
  bait the vendor table prices at 2; and the same recipe with an ingredient that nothing
  prices.
\<close>

lemma example_craft_profit:
  "craft_profit
     \<lparr>db = Some [(7, \<lparr>d_id = 7, d_hashed_id = ''p'', minimumPrice = Fin 100,
                        d_name = ''Healing Potion'', d_tier = None\<rparr>)], stalledXHR = []\<rparr>
     \<lparr>nameSpan = Some '' Healing Potion '', craftTimeSpan = Some (Fin 10),
      requirementsContainer =
        Some [\<lparr>quantitySpan = Some ''1'', itemNameSpan = Some ''Cheap Bait''\<rparr>]\<rparr>
   = Some (Inr \<lparr>recipeName = ''Healing Potion'', recipeSellPrice = Fin 100,
                 recipeSellPriceWithTax = Fin 88, craftTimeSeconds = Fin 10,
                 requirements = [\<lparr>quantity = Fin 1, req_name = ''Cheap Bait'', totalPrice = Fin 2\<rparr>],
                 totalCost = Fin 2, totalProfit = Fin 86,
                 numPerHour = Fin 360, profitPerHour = Fin 30960\<rparr>)"
  by (simp add: eval_defs floor_rat_numeral round_double_numeral tax_100)

lemma example_unresolved:
  "craft_profit
     \<lparr>db = Some [(7, \<lparr>d_id = 7, d_hashed_id = ''p'', minimumPrice = Fin 100,
                        d_name = ''Healing Potion'', d_tier = None\<rparr>)], stalledXHR = []\<rparr>
     \<lparr>nameSpan = Some ''Healing Potion'', craftTimeSpan = Some (Fin 10),
      requirementsContainer =
        Some [\<lparr>quantitySpan = Some ''1'', itemNameSpan = Some ''Unknown Herb''\<rparr>]\<rparr>
   = Some (Inl (NotFound ''Unknown Herb''))"
  by (simp add: eval_defs round_double_numeral tax_100)

text \<open>
  A division that is not exact: a potion priced at 27, made in 672 seconds of one bait.
  After tax it sells for 23, the profit of a craft is 21, and 3600 over 672 is the double
  nearest to \<open>75 / 14\<close>; the product is a double just below 112.5, shown as 112.
\<close>

lemma double_75_14: "round_double (75 / 14) = Fin (6031606643799771 / 1125899906842624)"
  by code_simp

lemma double_product:
  "round_double (21 * (6031606643799771 / 1125899906842624))
     = Fin (7916483719987199 / 70368744177664)"
  by code_simp

lemma tax_27: "Math_floor (jmul (Fin 27) lit_0_88) = Fin 23"
  using tax_floor [of 27] by simp

lemma example_inexact_division:
  "map_option (map_sum id profitPerHour)
     (craft_profit
        \<lparr>db = Some [(7, \<lparr>d_id = 7, d_hashed_id = ''p'', minimumPrice = Fin 27,
                           d_name = ''Healing Potion'', d_tier = None\<rparr>)], stalledXHR = []\<rparr>
        \<lparr>nameSpan = Some ''Healing Potion'', craftTimeSpan = Some (Fin 672),
         requirementsContainer =
           Some [\<lparr>quantitySpan = Some ''1'', itemNameSpan = Some ''Cheap Bait''\<rparr>]\<rparr>)
   = Some (Inr (Fin 112))"
proof -
  have d: "jdiv (Fin 3600) (Fin 672) = Fin (6031606643799771 / 1125899906842624)"
    using double_75_14 by simp
  have m: "jmul (Fin 21) (Fin (6031606643799771 / 1125899906842624))
      = Fin (7916483719987199 / 70368744177664)"
    using double_product by (simp only: jmul.simps)
  have r: "Math_round (Fin (7916483719987199 / 70368744177664)) = Fin 112"
    by (simp add: floor_rat_numeral)
  have c: "craft_profit
        \<lparr>db = Some [(7, \<lparr>d_id = 7, d_hashed_id = ''p'', minimumPrice = Fin 27,
                           d_name = ''Healing Potion'', d_tier = None\<rparr>)], stalledXHR = []\<rparr>
        \<lparr>nameSpan = Some ''Healing Potion'', craftTimeSpan = Some (Fin 672),
         requirementsContainer =
           Some [\<lparr>quantitySpan = Some ''1'', itemNameSpan = Some ''Cheap Bait''\<rparr>]\<rparr>
      = Some (Inr \<lparr>recipeName = ''Healing Potion'', recipeSellPrice = Fin 27,
                 recipeSellPriceWithTax = Fin 23, craftTimeSeconds = Fin 672,
                 requirements = [\<lparr>quantity = Fin 1, req_name = ''Cheap Bait'', totalPrice = Fin 2\<rparr>],
                 totalCost = Fin 2, totalProfit = Fin 21,
                 numPerHour = jdiv (Fin 3600) (Fin 672),
                 profitPerHour = Math_round (jmul (Fin 21) (jdiv (Fin 3600) (Fin 672)))\<rparr>)"
    by (simp add: eval_defs round_double_numeral tax_27 del: jdiv.simps)
  show ?thesis
    unfolding c d m r by simp
qed

text \<open>
  C4, as amended, at the potion: 88 after tax for the sell price 100.
\<close>

theorem sell_price_after_tax_witness:
  "craft_profit
     \<lparr>db = Some [(7, \<lparr>d_id = 7, d_hashed_id = ''p'', minimumPrice = Fin 100,
                        d_name = ''Healing Potion'', d_tier = None\<rparr>)], stalledXHR = []\<rparr>
     \<lparr>nameSpan = Some '' Healing Potion '', craftTimeSpan = Some (Fin 10),
      requirementsContainer =
        Some [\<lparr>quantitySpan = Some ''1'', itemNameSpan = Some ''Cheap Bait''\<rparr>]\<rparr>
   = Some (Inr \<lparr>recipeName = ''Healing Potion'', recipeSellPrice = Fin 100,
                 recipeSellPriceWithTax = Fin 88, craftTimeSeconds = Fin 10,
                 requirements = [\<lparr>quantity = Fin 1, req_name = ''Cheap Bait'', totalPrice = Fin 2\<rparr>],
                 totalCost = Fin 2, totalProfit = Fin 86,
                 numPerHour = Fin 360, profitPerHour = Fin 30960\<rparr>)
   \<and> ''Healing Potion'' \<noteq> ''Cooked Cod''
   \<and> (0 :: int) \<le> 100 \<and> (100 :: int) \<le> 10 ^ 14
   \<and> Fin 88 = Math_floor (jmul (Fin 100) lit_0_88)
   \<and> Fin 88 = Fin (of_int ((100 * 88) div 100))"
  using example_craft_profit sell_price_after_tax [OF example_craft_profit]
  by simp

text \<open>
  C5 as worded fails here: the store is connected and empty, the recipe \<open>Cooked Cod\<close>
  needs one \<open>Unknown Herb\<close>, which nothing prices; the turn of the loop ends in the
  error of the lookup, and there are no figures to mark or to set to 0.
\<close>

theorem unresolved_requirement_counterexample:
  "craft_profit \<lparr>db = Some [], stalledXHR = []\<rparr>
     \<lparr>nameSpan = Some ''Cooked Cod'', craftTimeSpan = Some (Fin 10),
      requirementsContainer =
        Some [\<lparr>quantitySpan = Some ''1'', itemNameSpan = Some ''Unknown Herb''\<rparr>]\<rparr>
   = Some (Inl (NotFound ''Unknown Herb''))"
  by (simp add: eval_defs round_double_numeral)

text \<open>
  C5, as amended, at the potion with the unpriced ingredient.
\<close>

theorem unresolved_requirement_no_figure_witness:
  "findVendorItemByName (trim ''Unknown Herb'') = None
   \<and> index_get [(7, \<lparr>d_id = 7, d_hashed_id = ''p'', minimumPrice = Fin 100,
                       d_name = ''Healing Potion'', d_tier = None\<rparr>)] (trim ''Unknown Herb'') = None
   \<and> \<not> isNaN (parseInt (trim ''1''))
   \<and> \<not> (\<exists>p. craft_profit
         \<lparr>db = Some [(7, \<lparr>d_id = 7, d_hashed_id = ''p'', minimumPrice = Fin 100,
                            d_name = ''Healing Potion'', d_tier = None\<rparr>)], stalledXHR = []\<rparr>
         \<lparr>nameSpan = Some ''Healing Potion'', craftTimeSpan = Some (Fin 10),
          requirementsContainer =
            Some [\<lparr>quantitySpan = Some ''1'', itemNameSpan = Some ''Unknown Herb''\<rparr>]\<rparr>
        = Some (Inr p))"
proof -
  let ?sp = "\<lparr>quantitySpan = Some ''1'', itemNameSpan = Some ''Unknown Herb''\<rparr>"
  let ?os = "[(7, \<lparr>d_id = 7, d_hashed_id = ''p'', minimumPrice = Fin 100,
                    d_name = ''Healing Potion'', d_tier = None\<rparr>)]"
  let ?st = "\<lparr>db = Some ?os, stalledXHR = []\<rparr>"
  let ?b = "\<lparr>nameSpan = Some ''Healing Potion'', craftTimeSpan = Some (Fin 10),
             requirementsContainer = Some [?sp]\<rparr>"
  have t: "trim ''Unknown Herb'' = ''Unknown Herb''" "trim ''1'' = ''1''"
    by (simp_all add: trim_def isWhiteSpace_def)
  have v: "findVendorItemByName (trim ''Unknown Herb'') = None"
    unfolding t by (simp add: findVendorItemByName_def VENDOR_ITEMS_def)
  have i: "index_get ?os (trim ''Unknown Herb'') = None"
    unfolding t by (simp add: index_get_def)
  have q: "\<not> isNaN (parseInt (trim ''1''))"
    unfolding t
    by (simp add: parseInt_def isWhiteSpace_def isDigit_def decimal_def digitVal_def)
  have n: "trim ''Unknown Herb'' \<noteq> []" unfolding t by simp
  have d: "case db ?st of None \<Rightarrow> True | Some os \<Rightarrow> index_get os (trim ''Unknown Herb'') = None"
    using i by simp
  have "\<not> (\<exists>p. craft_profit ?st ?b = Some (Inr p))
      \<and> fst (render_loop ?st ([] @ [?b])) = fst (render_loop ?st [])"
    by (rule unresolved_requirement_no_figure [where sp = ?sp and spans = "[?sp]"
          and qt = "''1''" and nt = "''Unknown Herb''", OF _ _ _ _ q n v d]) simp_all
  then show ?thesis using v i q by blast
qed


text \<open>
  C10 at the potion with one more span, whose quantity text is \<open>lots\<close> and whose
  item nothing prices: the figures are those of the potion without the span.
\<close>

theorem malformed_requirement_skipped_witness:
  "isNaN (parseInt (trim ''lots''))
   \<and> craft_profit
       \<lparr>db = Some [(7, \<lparr>d_id = 7, d_hashed_id = ''p'', minimumPrice = Fin 100,
                          d_name = ''Healing Potion'', d_tier = None\<rparr>)], stalledXHR = []\<rparr>
       \<lparr>nameSpan = Some '' Healing Potion '', craftTimeSpan = Some (Fin 10),
        requirementsContainer =
          Some [\<lparr>quantitySpan = Some ''lots'', itemNameSpan = Some ''Unknown Herb''\<rparr>,
                \<lparr>quantitySpan = Some ''1'', itemNameSpan = Some ''Cheap Bait''\<rparr>]\<rparr>
     = Some (Inr \<lparr>recipeName = ''Healing Potion'', recipeSellPrice = Fin 100,
                   recipeSellPriceWithTax = Fin 88, craftTimeSeconds = Fin 10,
                   requirements = [\<lparr>quantity = Fin 1, req_name = ''Cheap Bait'', totalPrice = Fin 2\<rparr>],
                   totalCost = Fin 2, totalProfit = Fin 86,
                   numPerHour = Fin 360, profitPerHour = Fin 30960\<rparr>)"
proof -
  have q: "isNaN (parseInt (trim ''lots''))"
    by (simp add: trim_def parseInt_def isWhiteSpace_def isDigit_def)
  then have q': "isNaN (parseInt (trim ''lots'')) \<or> trim ''Unknown Herb'' = []" by simp
  show ?thesis
    using q example_craft_profit
      malformed_requirement_skipped
        [where sp = "\<lparr>quantitySpan = Some ''lots'', itemNameSpan = Some ''Unknown Herb''\<rparr>"
           and qt = "''lots''" and nt = "''Unknown Herb''" and xs = "[]"
           and ys = "[\<lparr>quantitySpan = Some ''1'', itemNameSpan = Some ''Cheap Bait''\<rparr>]"
           and b = "\<lparr>nameSpan = Some '' Healing Potion '', craftTimeSpan = Some (Fin 10),
                     requirementsContainer = None\<rparr>"
           and st = "\<lparr>db = Some [(7, \<lparr>d_id = 7, d_hashed_id = ''p'', minimumPrice = Fin 100,
                        d_name = ''Healing Potion'', d_tier = None\<rparr>)], stalledXHR = []\<rparr>",
         OF _ _ q']
    by simp
qed

text \<open>
  C6: with the recipe of the unpriced ingredient first on the page, the loop ends at it in
  the error of the lookup and the recipe after it, which alone on the page gets its
  figures, gets none.
\<close>

theorem render_stops_at_unresolved_recipe:
  "renderCraftProfit
     \<lparr>db = Some [(7, \<lparr>d_id = 7, d_hashed_id = ''p'', minimumPrice = Fin 100,
                        d_name = ''Healing Potion'', d_tier = None\<rparr>)], stalledXHR = []\<rparr>
     (Some [\<lparr>nameSpan = Some ''Healing Potion'', craftTimeSpan = Some (Fin 10),
             requirementsContainer =
               Some [\<lparr>quantitySpan = Some ''1'', itemNameSpan = Some ''Unknown Herb''\<rparr>]\<rparr>,
            \<lparr>nameSpan = Some '' Healing Potion '', craftTimeSpan = Some (Fin 10),
             requirementsContainer =
               Some [\<lparr>quantitySpan = Some ''1'', itemNameSpan = Some ''Cheap Bait''\<rparr>]\<rparr>])
   = ([], Some (NotFound ''Unknown Herb''))
   \<and> renderCraftProfit
     \<lparr>db = Some [(7, \<lparr>d_id = 7, d_hashed_id = ''p'', minimumPrice = Fin 100,
                        d_name = ''Healing Potion'', d_tier = None\<rparr>)], stalledXHR = []\<rparr>
     (Some [\<lparr>nameSpan = Some '' Healing Potion '', craftTimeSpan = Some (Fin 10),
             requirementsContainer =
               Some [\<lparr>quantitySpan = Some ''1'', itemNameSpan = Some ''Cheap Bait''\<rparr>]\<rparr>])
   = ([\<lparr>recipeName = ''Healing Potion'', recipeSellPrice = Fin 100,
        recipeSellPriceWithTax = Fin 88, craftTimeSeconds = Fin 10,
        requirements = [\<lparr>quantity = Fin 1, req_name = ''Cheap Bait'', totalPrice = Fin 2\<rparr>],
        totalCost = Fin 2, totalProfit = Fin 86,
        numPerHour = Fin 360, profitPerHour = Fin 30960\<rparr>], None)"
  by (simp add: renderCraftProfit_def example_craft_profit example_unresolved)

end
